theory Spec2Isabelle
  imports Main "HOL-Library.Word"
begin

section \<open>Values of the host language\<close>

text \<open>
  The driver is JavaScript running on the Homey host. The values that reach the code
  modelled here are booleans, integers, strings, byte buffers, \<open>null\<close> and
  \<open>undefined\<close>. Numbers are modelled as \<open>int\<close>: the driver only handles bytes,
  32-bit shift results and whole seconds. A byte of a buffer is an \<open>8 word\<close>.
\<close>

datatype jsval =
    JUndefined
  | JNull
  | JBool bool
  | JNum int
  | JStr string
  | JBuf "8 word list"

text \<open>\<open>!!v\<close> and the condition of \<open>c ? a : b\<close>: an object (a buffer) is always truthy.\<close>

fun truthy :: "jsval \<Rightarrow> bool" where
  "truthy JUndefined = False"
| "truthy JNull = False"
| "truthy (JBool b) = b"
| "truthy (JNum n) = (n \<noteq> 0)"
| "truthy (JStr s) = (s \<noteq> [])"
| "truthy (JBuf bs) = True"

text \<open>\<open>a << k\<close>: the left operand is reduced to a signed 32-bit integer, shifted, and
  read back as a signed 32-bit integer.\<close>

definition js_shl :: "int \<Rightarrow> nat \<Rightarrow> int" where
  "js_shl v k = sint (push_bit (k mod 32) (word_of_int v :: 32 word))"

text \<open>\<open>buf[0]\<close>: \<open>undefined\<close> on an empty buffer.\<close>

definition index0 :: "8 word list \<Rightarrow> jsval" where
  "index0 d = (case d of [] \<Rightarrow> JUndefined | b # _ \<Rightarrow> JNum (uint b))"

text \<open>Decimal digits of a number, for \<open>Number.prototype.toString\<close>.\<close>

fun digits :: "nat \<Rightarrow> string" where
  "digits n = (if n < 10 then [char_of (48 + n)]
               else digits (n div 10) @ [char_of (48 + n mod 10)])"

declare digits.simps [simp del]

definition show_int :: "int \<Rightarrow> string" where
  "show_int n = (if n < 0 then CHR ''-'' # digits (nat (- n)) else digits (nat n))"

text \<open>\<open>value.toString()\<close>. It throws a TypeError on \<open>undefined\<close> and \<open>null\<close>
  (\<open>None\<close>). The text of a buffer is the host's decoding of its bytes, taken as the
  parameter \<open>dec\<close>.\<close>

fun toString :: "(8 word list \<Rightarrow> string) \<Rightarrow> jsval \<Rightarrow> string option" where
  "toString dec JUndefined = None"
| "toString dec JNull = None"
| "toString dec (JBool b) = Some (if b then ''true'' else ''false'')"
| "toString dec (JNum n) = Some (show_int n)"
| "toString dec (JStr s) = Some s"
| "toString dec (JBuf bs) = Some (dec bs)"

text \<open>\<open>String.prototype.includes\<close>.\<close>

fun startsWith :: "string \<Rightarrow> string \<Rightarrow> bool" where
  "startsWith s [] = True"
| "startsWith [] (p # ps) = False"
| "startsWith (c # cs) (p # ps) = (c = p \<and> startsWith cs ps)"

fun str_includes :: "string \<Rightarrow> string \<Rightarrow> bool" where
  "str_includes [] p = (p = [])"
| "str_includes (c # cs) p = (startsWith (c # cs) p \<or> str_includes cs p)"

subsection \<open>Settings and \<open>parseInt\<close>\<close>

text \<open>A stored setting is a number, a text, a checkbox or \<open>null\<close>; a key that is not
  stored reads as \<open>undefined\<close> (\<open>None\<close> of the map).\<close>

datatype setting = SNum int | SStr string | SBool bool | SNull

definition isWhite :: "char \<Rightarrow> bool" where
  "isWhite c = (c \<in> set [CHR '' '', CHR 0x09, CHR 0x0A, CHR 0x0B, CHR 0x0C, CHR 0x0D])"

definition digitVal :: "char \<Rightarrow> nat option" where
  "digitVal c =
     (let n = (of_char c :: nat) in
      if 48 \<le> n \<and> n \<le> 57 then Some (n - 48)
      else if 97 \<le> n \<and> n \<le> 102 then Some (n - 87)
      else if 65 \<le> n \<and> n \<le> 70 then Some (n - 55)
      else None)"

definition isDigit :: "nat \<Rightarrow> char \<Rightarrow> bool" where
  "isDigit radix c = (case digitVal c of None \<Rightarrow> False | Some d \<Rightarrow> d < radix)"

fun digitsValue :: "nat \<Rightarrow> nat \<Rightarrow> string \<Rightarrow> nat" where
  "digitsValue radix acc [] = acc"
| "digitsValue radix acc (c # cs) = digitsValue radix (acc * radix + the (digitVal c)) cs"

text \<open>The unsigned part: an optional \<open>0x\<close>/\<open>0X\<close> selects radix 16; the longest prefix of
  digits is read; no digit at all is NaN (\<open>None\<close>).\<close>

definition parseMagnitude :: "string \<Rightarrow> nat option" where
  "parseMagnitude s =
     (let hex = (startsWith s ''0x'' \<or> startsWith s ''0X'');
          radix = (if hex then 16 else 10);
          body = takeWhile (isDigit radix) (if hex then drop 2 s else s)
      in if body = [] then None else Some (digitsValue radix 0 body))"

definition parseIntString :: "string \<Rightarrow> int option" where
  "parseIntString s =
     (let t = dropWhile isWhite s in
      case t of
        [] \<Rightarrow> None
      | c # cs \<Rightarrow>
          if c = CHR ''-'' then map_option (\<lambda>n. - int n) (parseMagnitude cs)
          else if c = CHR ''+'' then map_option int (parseMagnitude cs)
          else map_option int (parseMagnitude t))"

text \<open>\<open>parseInt(x)\<close> on what \<open>getSettings()[key]\<close> returns. A stored whole number
  parses to itself; \<open>undefined\<close>, \<open>null\<close> and booleans parse to NaN. The model is
  JavaScript's \<open>parseInt\<close> on whole numbers of magnitude below \<open>2^53\<close> and on texts
  whose white space is ASCII and whose value stays below \<open>2^53\<close>. Beyond that
  JavaScript differs: it reads the printed form of a number (\<open>1e21\<close> reads as 1), skips
  the Unicode white space too, and rounds the result to a double. The properties below
  take the result of \<open>parseInt\<close> as given; the examples use 0, 5, 30 and -5.\<close>

fun parseInt :: "setting option \<Rightarrow> int option" where
  "parseInt None = None"
| "parseInt (Some (SNum n)) = Some n"
| "parseInt (Some (SStr s)) = parseIntString s"
| "parseInt (Some (SBool b)) = None"
| "parseInt (Some SNull) = None"

text \<open>\<open>parseInt(x) || d\<close>: NaN and 0 are falsy.\<close>

definition orDefault :: "int option \<Rightarrow> int \<Rightarrow> int" where
  "orDefault p d = (case p of None \<Rightarrow> d | Some n \<Rightarrow> if n = 0 then d else n)"

section \<open>Data parsing\<close>

text \<open>A data-point report of the Tuya cluster: the data-point number, the datatype tag
  and the payload bytes.\<close>

record dpvalue =
  dp :: nat
  dtype :: nat
  data :: "8 word list"

text \<open>\<open>convertMultiByte\<close>: the loop \<open>value = value << 8; value += chunks[i]\<close>.\<close>

fun convertMultiByte_loop :: "int \<Rightarrow> 8 word list \<Rightarrow> int" where
  "convertMultiByte_loop v [] = v"
| "convertMultiByte_loop v (c # cs) = convertMultiByte_loop (js_shl v 8 + uint c) cs"

definition convertMultiByte :: "8 word list \<Rightarrow> int" where
  "convertMultiByte chunks = convertMultiByte_loop 0 chunks"

definition getDataValue :: "dpvalue \<Rightarrow> jsval" where
  "getDataValue dpValue =
     (if dtype dpValue = 0 then JBuf (data dpValue)
      else if dtype dpValue = 1 then JBool (index0 (data dpValue) = JNum 1)
      else if dtype dpValue = 2 then JNum (convertMultiByte (data dpValue))
      else if dtype dpValue = 4 then index0 (data dpValue)
      else JBuf (data dpValue))"

text \<open>The value the spec gives for tag 2: the unsigned big-endian number of the bytes.\<close>

definition be_unsigned :: "8 word list \<Rightarrow> nat" where
  "be_unsigned bs = foldl (\<lambda>acc b. acc * 256 + unat b) 0 bs"

text \<open>The same loop on 32-bit words, where the wrap-around is the arithmetic of the type.\<close>

definition wloop :: "32 word \<Rightarrow> 8 word list \<Rightarrow> 32 word" where
  "wloop w bs = foldl (\<lambda>w b. w * 256 + ucast b) w bs"

section \<open>The device and its host\<close>

text \<open>
  A timer of the host's scheduler is a handle, a delay in milliseconds and the callback
  it runs. The callbacks of the driver are closures; each is named here with the
  variables it captures: the pulse sender, the safety check with the expected end state,
  the open-time alarm with its setting, the continuation of the pulse sender after its
  500 ms retry delay (with the expected end state), and the recovery of the status after
  a failed retry.
\<close>

type_synonym handle = nat

datatype callback =
    SendPulseCb
  | SafetyCb bool
  | OpenAlarmCb int
  | RetryCb bool
  | RecoveryCb

text \<open>What the device does to the outside: a boolean write to a data point, a flow card
  triggered, and a promise rejected with nobody catching it.\<close>

datatype effect =
    WriteBool nat bool
  | FlowTrigger string
  | UnhandledRejection

text \<open>
  The device: the capability values (the domain of the map is the set of capabilities the
  device has), the stored settings, the three timer fields of the object, the timers
  pending in the host's scheduler, the next fresh handle, and the effects so far.
\<close>

record device =
  caps :: "string \<rightharpoonup> jsval"
  settings :: "string \<rightharpoonup> setting"
  delayedTriggerTimer :: "handle option"
  safetyTimer :: "handle option"
  openAlarmTimer :: "handle option"
  pending :: "(handle \<times> int \<times> callback) list"
  nextHandle :: handle
  effects :: "effect list"

text \<open>The outcome of a transport write: resolved, or rejected with an error whose
  \<open>message\<close> may be missing.\<close>

datatype write_outcome = Resolved | Rejected "string option"

text \<open>The outcome of looking up and triggering a flow card.\<close>

datatype card_outcome = CardTriggered | CardTriggerRejected | CardNotFound | CardLookupThrows

text \<open>What the host answers during one handler.\<close>

record env =
  writeOutcome :: write_outcome
  cardOutcome :: card_outcome

definition dataPoints_doorTrigger :: nat where "dataPoints_doorTrigger = 1"
definition dataPoints_garageDoorContact :: nat where "dataPoints_garageDoorContact = 3"
definition dataPoints_status :: nat where "dataPoints_status = 12"

subsection \<open>Host calls\<close>

definition hasCapability :: "string \<Rightarrow> device \<Rightarrow> bool" where
  "hasCapability c s = (caps s c \<noteq> None)"

text \<open>\<open>getCapabilityValue(c)\<close>: \<open>null\<close> for a capability without a value.\<close>

definition getCapabilityValue :: "string \<Rightarrow> device \<Rightarrow> jsval" where
  "getCapabilityValue c s = (case caps s c of None \<Rightarrow> JNull | Some v \<Rightarrow> v)"

text \<open>\<open>setCapabilityValue(c, v).catch(this.error)\<close>: the host rejects a capability the
  device does not have, and the rejection is logged.\<close>

definition setCapabilityValue :: "string \<Rightarrow> jsval \<Rightarrow> device \<Rightarrow> device" where
  "setCapabilityValue c v s = (if caps s c \<noteq> None then s\<lparr>caps := (caps s)(c \<mapsto> v)\<rparr> else s)"

definition homey_setTimeout :: "callback \<Rightarrow> int \<Rightarrow> device \<Rightarrow> handle \<times> device" where
  "homey_setTimeout cb ms s =
     (nextHandle s,
      s\<lparr>pending := pending s @ [(nextHandle s, ms, cb)], nextHandle := Suc (nextHandle s)\<rparr>)"

text \<open>\<open>clearTimeout\<close> of \<open>undefined\<close> or of a timer that has fired does nothing.\<close>

definition homey_clearTimeout :: "handle option \<Rightarrow> device \<Rightarrow> device" where
  "homey_clearTimeout ho s =
     (case ho of None \<Rightarrow> s
      | Some h \<Rightarrow> s\<lparr>pending := filter (\<lambda>t. fst t \<noteq> h) (pending s)\<rparr>)"

text \<open>The scheduler takes a timer out of its queue when it fires.\<close>

definition dropTimer :: "handle \<Rightarrow> device \<Rightarrow> device" where
  "dropTimer h s = s\<lparr>pending := filter (\<lambda>t. fst t \<noteq> h) (pending s)\<rparr>"

text \<open>The flow trigger of the revision with the open-time alarm: lookup and trigger are
  inside \<open>try\<close>; a missing card and every error are logged.\<close>

definition triggerFlowCard :: "string \<Rightarrow> card_outcome \<Rightarrow> device \<Rightarrow> device" where
  "triggerFlowCard name c s =
     (case c of
        CardTriggered \<Rightarrow> s\<lparr>effects := effects s @ [FlowTrigger name]\<rparr>
      | CardTriggerRejected \<Rightarrow> s\<lparr>effects := effects s @ [FlowTrigger name]\<rparr>
      | CardNotFound \<Rightarrow> s
      | CardLookupThrows \<Rightarrow> s)"

text \<open>The flow trigger of \<open>drivers/Garage_Door_Opener/device.js\<close>: the lookup is not
  guarded, the trigger has \<open>.catch(this.error)\<close>.\<close>

definition triggerFlowCard_basic :: "string \<Rightarrow> card_outcome \<Rightarrow> device \<Rightarrow> device" where
  "triggerFlowCard_basic name c s =
     (case c of
        CardTriggered \<Rightarrow> s\<lparr>effects := effects s @ [FlowTrigger name]\<rparr>
      | CardTriggerRejected \<Rightarrow> s\<lparr>effects := effects s @ [FlowTrigger name]\<rparr>
      | CardNotFound \<Rightarrow> s
      | CardLookupThrows \<Rightarrow> s\<lparr>effects := effects s @ [UnhandledRejection]\<rparr>)"

section \<open>The driver with retry and open-time alarm\<close>

text \<open>
  The handlers are given twice. In this section and the next each handler is one step:
  it is the handler when the host answers every call it awaits (the capability writes, the
  transport write) before the next stimulus arrives. The 500 ms retry delay of the pulse
  sender is a timer of the scheduler, so the pulse sender is cut there into \<open>sendPulse\<close>
  and its continuation \<open>sendPulse_retry\<close>. The section after them gives the trigger
  request and the pulse sender segment by segment, cut at every \<open>await\<close>, so that other
  handlers run while one waits; \<open>request_one_step\<close> and \<open>timer_one_step\<close> relate the
  two. Calls of \<open>this.log\<close> and \<open>this.error\<close> change nothing and are left out, and so
  are \<open>onSettings\<close> and \<open>onDeleted\<close>: along a run the stored settings stay as they
  are.
\<close>

text \<open>\<open>err.message && err.message.includes('Timeout')\<close>\<close>

definition isTimeout :: "string option \<Rightarrow> bool" where
  "isTimeout m = (case m of None \<Rightarrow> False | Some msg \<Rightarrow> msg \<noteq> [] \<and> str_includes msg ''Timeout'')"

definition startSafetyTimer :: "bool \<Rightarrow> device \<Rightarrow> device" where
  "startSafetyTimer expectedState s =
     (let s1 = homey_clearTimeout (safetyTimer s) s;
          runTimeSetting = orDefault (parseInt (settings s1 ''run_time'')) 20;
          (h, s2) = homey_setTimeout (SafetyCb expectedState) (runTimeSetting * 1000) s1
      in s2\<lparr>safetyTimer := Some h\<rparr>)"

text \<open>The callback of the safety timer.\<close>

definition safetyCallback :: "bool \<Rightarrow> env \<Rightarrow> device \<Rightarrow> device" where
  "safetyCallback expectedState e s =
     (let currentContact = getCapabilityValue ''alarm_contact'' s in
      if currentContact \<noteq> JBool expectedState then
        let s1 = setCapabilityValue ''garage_Door_Button'' currentContact s;
            s2 = (if hasCapability ''garage_Door_State_Capability'' s1
                  then setCapabilityValue ''garage_Door_State_Capability'' (JStr ''1'') s1
                  else s1)
        in triggerFlowCard ''runtime_alarm_triggered'' (cardOutcome e) s2
      else s)"

text \<open>\<open>sendPulse\<close> up to the end of the first write and its \<open>catch\<close>.\<close>

definition sendPulse :: "env \<Rightarrow> device \<Rightarrow> device" where
  "sendPulse e s =
     (let s1 = (if hasCapability ''garage_Door_State_Capability'' s
                then setCapabilityValue ''garage_Door_State_Capability'' (JStr ''moving'') s
                else s);
          isCurrentlyOpen = (getCapabilityValue ''alarm_contact'' s1 = JBool True);
          expectedEndState = (\<not> isCurrentlyOpen);
          s2 = s1\<lparr>effects := effects s1 @ [WriteBool dataPoints_doorTrigger True]\<rparr>
      in case writeOutcome e of
           Resolved \<Rightarrow> startSafetyTimer expectedEndState s2
         | Rejected msg \<Rightarrow>
             if isTimeout msg then startSafetyTimer expectedEndState s2
             else snd (homey_setTimeout (RetryCb expectedEndState) 500 s2))"

text \<open>\<open>sendPulse\<close> from the end of the 500 ms delay: the second write, and on its
  failure the error status and the recovery timer, with no safety timer.\<close>

definition sendPulse_retry :: "bool \<Rightarrow> env \<Rightarrow> device \<Rightarrow> device" where
  "sendPulse_retry expectedEndState e s =
     (let s1 = s\<lparr>effects := effects s @ [WriteBool dataPoints_doorTrigger True]\<rparr>
      in case writeOutcome e of
           Resolved \<Rightarrow> startSafetyTimer expectedEndState s1
         | Rejected msg \<Rightarrow>
             let s2 = (if hasCapability ''garage_Door_State_Capability'' s1
                       then setCapabilityValue ''garage_Door_State_Capability'' (JStr ''error'') s1
                       else s1)
             in snd (homey_setTimeout RecoveryCb 3000 s2))"

text \<open>The callback of the 3000 ms recovery timer.\<close>

definition recoveryCallback :: "device \<Rightarrow> device" where
  "recoveryCallback s =
     (let currentState = getCapabilityValue ''alarm_contact'' s
      in setCapabilityValue ''garage_Door_State_Capability''
           (JStr (if truthy currentState then ''open'' else ''closed'')) s)"

definition triggerDoorPulse :: "env \<Rightarrow> device \<Rightarrow> device" where
  "triggerDoorPulse e s =
     (let s1 = homey_clearTimeout (delayedTriggerTimer s) s;
          s2 = homey_clearTimeout (safetyTimer s1) s1;
          countdownSeconds = orDefault (parseInt (settings s2 ''count_down'')) 0
      in if countdownSeconds \<le> 0 then sendPulse e s2
         else
           let s3 = (if hasCapability ''garage_Door_State_Capability'' s2
                     then setCapabilityValue ''garage_Door_State_Capability'' (JStr ''2'') s2
                     else s2);
               (h, s4) = homey_setTimeout SendPulseCb (countdownSeconds * 1000) s3
           in s4\<lparr>delayedTriggerTimer := Some h\<rparr>)"

definition startOpenAlarmTimer :: "device \<Rightarrow> device" where
  "startOpenAlarmTimer s =
     (let s1 = homey_clearTimeout (openAlarmTimer s) s;
          openAlarmTimeSetting = orDefault (parseInt (settings s1 ''open_alarm_time'')) 0
      in if openAlarmTimeSetting \<le> 0 then s1
         else
           let (h, s2) = homey_setTimeout (OpenAlarmCb openAlarmTimeSetting)
                            (openAlarmTimeSetting * 1000) s1
           in s2\<lparr>openAlarmTimer := Some h\<rparr>)"

text \<open>The callback of the open-time alarm timer.\<close>

definition openAlarmCallback :: "env \<Rightarrow> device \<Rightarrow> device" where
  "openAlarmCallback e s =
     (let isStillOpen = (getCapabilityValue ''alarm_contact'' s = JBool True)
      in if isStillOpen then triggerFlowCard ''opentime_alarm_triggered'' (cardOutcome e) s
         else s)"

definition stopOpenAlarmTimer :: "device \<Rightarrow> device" where
  "stopOpenAlarmTimer s = homey_clearTimeout (openAlarmTimer s) s"

text \<open>The status branch calls \<open>value.toString()\<close>, which throws on \<open>undefined\<close> (tag 4
  with an empty payload); nothing catches it.\<close>

definition handleStatus :: "(8 word list \<Rightarrow> string) \<Rightarrow> jsval \<Rightarrow> device \<Rightarrow> device" where
  "handleStatus dec val s =
     (if hasCapability ''garage_Door_State_Capability'' s then
        (case toString dec val of
           None \<Rightarrow> s\<lparr>effects := effects s @ [UnhandledRejection]\<rparr>
         | Some str \<Rightarrow> setCapabilityValue ''garage_Door_State_Capability'' (JStr str) s)
      else s)"

definition handleDataPoint :: "(8 word list \<Rightarrow> string) \<Rightarrow> dpvalue \<Rightarrow> device \<Rightarrow> device" where
  "handleDataPoint dec d s =
     (let val = getDataValue d in
      if dp d = dataPoints_garageDoorContact then
        let isOpen = truthy val;
            s1 = homey_clearTimeout (safetyTimer s) s;
            s2 = homey_clearTimeout (delayedTriggerTimer s1) s1;
            s3 = setCapabilityValue ''alarm_contact'' (JBool isOpen) s2;
            s4 = (if hasCapability ''garage_Door_Button'' s3
                  then setCapabilityValue ''garage_Door_Button'' (JBool isOpen) s3 else s3);
            s5 = (if hasCapability ''garage_Door_State_Capability'' s4
                  then setCapabilityValue ''garage_Door_State_Capability''
                         (JStr (if isOpen then ''open'' else ''closed'')) s4
                  else s4)
        in if isOpen then startOpenAlarmTimer s5 else stopOpenAlarmTimer s5
      else if dp d = dataPoints_status then handleStatus dec val s
      else s)"

subsection \<open>Events\<close>

fun runCallback :: "callback \<Rightarrow> env \<Rightarrow> device \<Rightarrow> device" where
  "runCallback SendPulseCb e s = sendPulse e s"
| "runCallback (SafetyCb x) e s = safetyCallback x e s"
| "runCallback (OpenAlarmCb n) e s = openAlarmCallback e s"
| "runCallback (RetryCb x) e s = sendPulse_retry x e s"
| "runCallback RecoveryCb e s = recoveryCallback s"

text \<open>A pending timer fires: the scheduler drops it and runs its callback. A handle that
  is not pending does nothing.\<close>

definition fire :: "handle \<Rightarrow> env \<Rightarrow> device \<Rightarrow> device" where
  "fire h e s =
     (case find (\<lambda>t. fst t = h) (pending s) of
        None \<Rightarrow> s
      | Some t \<Rightarrow> runCallback (snd (snd t)) e (dropTimer h s))"

text \<open>The three stimuli: a trigger request (the button or the flow action), a data-point
  report, and a timer firing.\<close>

datatype event = Trigger env | DataPoint dpvalue | Fire handle env

fun step :: "(8 word list \<Rightarrow> string) \<Rightarrow> event \<Rightarrow> device \<Rightarrow> device" where
  "step dec (Trigger e) s = triggerDoorPulse e s"
| "step dec (DataPoint d) s = handleDataPoint dec d s"
| "step dec (Fire h e) s = fire h e s"

fun run :: "(8 word list \<Rightarrow> string) \<Rightarrow> event list \<Rightarrow> device \<Rightarrow> device" where
  "run dec [] s = s"
| "run dec (ev # evs) s = run dec evs (step dec ev s)"

text \<open>A device after \<open>onNodeInit\<close>: no timer field set, nothing pending.\<close>

definition init :: "(string \<rightharpoonup> jsval) \<Rightarrow> (string \<rightharpoonup> setting) \<Rightarrow> device" where
  "init cs st =
     \<lparr>caps = cs, settings = st, delayedTriggerTimer = None, safetyTimer = None,
      openAlarmTimer = None, pending = [], nextHandle = 0, effects = []\<rparr>"

text \<open>The pending timers of each kind.\<close>

definition isSafety :: "callback \<Rightarrow> bool" where
  "isSafety cb = (case cb of SafetyCb x \<Rightarrow> True | _ \<Rightarrow> False)"

definition isOpenAlarm :: "callback \<Rightarrow> bool" where
  "isOpenAlarm cb = (case cb of OpenAlarmCb n \<Rightarrow> True | _ \<Rightarrow> False)"

definition countdownPending :: "device \<Rightarrow> (handle \<times> int \<times> callback) list" where
  "countdownPending s = filter (\<lambda>t. snd (snd t) = SendPulseCb) (pending s)"

definition safetyPending :: "device \<Rightarrow> (handle \<times> int \<times> callback) list" where
  "safetyPending s = filter (\<lambda>t. isSafety (snd (snd t))) (pending s)"

definition openAlarmPending :: "device \<Rightarrow> (handle \<times> int \<times> callback) list" where
  "openAlarmPending s = filter (\<lambda>t. isOpenAlarm (snd (snd t))) (pending s)"

section \<open>The driver of \<open>drivers/Garage_Door_Opener/device.js\<close>\<close>

text \<open>
  The second source file is the same driver without the retry, the error status and the
  open-time alarm. \<open>convertMultiByte\<close>, \<open>getDataValue\<close> and \<open>startSafetyTimer\<close> have
  the same text in both files; the functions that differ are given here with the suffix
  \<open>_basic\<close>.
\<close>

text \<open>\<open>await this.writeBool(dataPoints.doorTrigger, true).catch(this.error)\<close>: every
  outcome of the write leads to the safety timer.\<close>

definition sendPulse_basic :: "env \<Rightarrow> device \<Rightarrow> device" where
  "sendPulse_basic e s =
     (let s1 = (if hasCapability ''garage_Door_State_Capability'' s
                then setCapabilityValue ''garage_Door_State_Capability'' (JStr ''moving'') s
                else s);
          isCurrentlyOpen = (getCapabilityValue ''alarm_contact'' s1 = JBool True);
          expectedEndState = (\<not> isCurrentlyOpen);
          s2 = s1\<lparr>effects := effects s1 @ [WriteBool dataPoints_doorTrigger True]\<rparr>
      in startSafetyTimer expectedEndState s2)"

definition safetyCallback_basic :: "bool \<Rightarrow> env \<Rightarrow> device \<Rightarrow> device" where
  "safetyCallback_basic expectedState e s =
     (let currentContact = getCapabilityValue ''alarm_contact'' s in
      if currentContact \<noteq> JBool expectedState then
        let s1 = setCapabilityValue ''garage_Door_Button'' currentContact s;
            s2 = (if hasCapability ''garage_Door_State_Capability'' s1
                  then setCapabilityValue ''garage_Door_State_Capability'' (JStr ''1'') s1
                  else s1)
        in triggerFlowCard_basic ''runtime_alarm_triggered'' (cardOutcome e) s2
      else s)"

definition triggerDoorPulse_basic :: "env \<Rightarrow> device \<Rightarrow> device" where
  "triggerDoorPulse_basic e s =
     (let s1 = homey_clearTimeout (delayedTriggerTimer s) s;
          s2 = homey_clearTimeout (safetyTimer s1) s1;
          countdownSeconds = orDefault (parseInt (settings s2 ''count_down'')) 0
      in if countdownSeconds \<le> 0 then sendPulse_basic e s2
         else
           let s3 = (if hasCapability ''garage_Door_State_Capability'' s2
                     then setCapabilityValue ''garage_Door_State_Capability'' (JStr ''2'') s2
                     else s2);
               (h, s4) = homey_setTimeout SendPulseCb (countdownSeconds * 1000) s3
           in s4\<lparr>delayedTriggerTimer := Some h\<rparr>)"

definition handleDataPoint_basic :: "(8 word list \<Rightarrow> string) \<Rightarrow> dpvalue \<Rightarrow> device \<Rightarrow> device" where
  "handleDataPoint_basic dec d s =
     (let val = getDataValue d in
      if dp d = dataPoints_garageDoorContact then
        let isOpen = truthy val;
            s1 = homey_clearTimeout (safetyTimer s) s;
            s2 = homey_clearTimeout (delayedTriggerTimer s1) s1;
            s3 = setCapabilityValue ''alarm_contact'' (JBool isOpen) s2;
            s4 = (if hasCapability ''garage_Door_Button'' s3
                  then setCapabilityValue ''garage_Door_Button'' (JBool isOpen) s3 else s3)
        in if hasCapability ''garage_Door_State_Capability'' s4
           then setCapabilityValue ''garage_Door_State_Capability''
                  (JStr (if isOpen then ''open'' else ''closed'')) s4
           else s4
      else if dp d = dataPoints_status then handleStatus dec val s
      else s)"

text \<open>This driver schedules the countdown and the safety timer only.\<close>

fun runCallback_basic :: "callback \<Rightarrow> env \<Rightarrow> device \<Rightarrow> device" where
  "runCallback_basic SendPulseCb e s = sendPulse_basic e s"
| "runCallback_basic (SafetyCb x) e s = safetyCallback_basic x e s"
| "runCallback_basic cb e s = s"

definition fire_basic :: "handle \<Rightarrow> env \<Rightarrow> device \<Rightarrow> device" where
  "fire_basic h e s =
     (case find (\<lambda>t. fst t = h) (pending s) of
        None \<Rightarrow> s
      | Some t \<Rightarrow> runCallback_basic (snd (snd t)) e (dropTimer h s))"

fun step_basic :: "(8 word list \<Rightarrow> string) \<Rightarrow> event \<Rightarrow> device \<Rightarrow> device" where
  "step_basic dec (Trigger e) s = triggerDoorPulse_basic e s"
| "step_basic dec (DataPoint d) s = handleDataPoint_basic dec d s"
| "step_basic dec (Fire h e) s = fire_basic h e s"

fun run_basic :: "(8 word list \<Rightarrow> string) \<Rightarrow> event list \<Rightarrow> device \<Rightarrow> device" where
  "run_basic dec [] s = s"
| "run_basic dec (ev # evs) s = run_basic dec evs (step_basic dec ev s)"

section \<open>The trigger request and the pulse sender, cut at their awaits\<close>

text \<open>
  \<open>triggerDoorPulse\<close> and \<open>sendPulse\<close> are \<open>async\<close>: at each \<open>await\<close> the handler
  gives way, and a trigger request, a report or a timer can be handled before it goes on.
  A handler that waits is kept as the point where it goes on, with the variables it
  still needs: after the status write of the countdown (with \<open>countdownSeconds\<close>), after
  the status write \<open>'moving'\<close>, after the first write of the pulse and after the write of
  the retry (both with \<open>expectedEndState\<close>), and after the status write \<open>'error'\<close>. A
  capability write takes effect when it is called; what waits is the handler. The report
  handler and the callbacks of the safety, open-time alarm and recovery timers are kept
  as one step each: the report handler cancels the safety and the countdown timer before
  its first \<open>await\<close>, the callbacks read the contact before theirs, and the capability
  writes and flow triggers they await are taken as answered at once.
\<close>

datatype task =
    AfterCountdownStatus int
  | AfterMovingStatus
  | AfterWrite bool
  | AfterRetryWrite bool
  | AfterErrorStatus

text \<open>The device together with the handlers that wait, each under a number.\<close>

record machine =
  dev :: device
  waiting :: "(nat \<times> task) list"
  nextTask :: nat

definition start :: "device \<Rightarrow> machine" where
  "start s = \<lparr>dev = s, waiting = [], nextTask = 0\<rparr>"

definition suspend :: "task \<Rightarrow> machine \<Rightarrow> machine" where
  "suspend k m = m\<lparr>waiting := waiting m @ [(nextTask m, k)], nextTask := Suc (nextTask m)\<rparr>"

text \<open>\<open>this.delayedTriggerTimer = this.homey.setTimeout(sendPulse, countdownSeconds * 1000)\<close>\<close>

definition triggerDoorPulse_schedule :: "int \<Rightarrow> machine \<Rightarrow> machine" where
  "triggerDoorPulse_schedule countdownSeconds m =
     (let (h, s) = homey_setTimeout SendPulseCb (countdownSeconds * 1000) (dev m)
      in m\<lparr>dev := s\<lparr>delayedTriggerTimer := Some h\<rparr>\<rparr>)"

text \<open>\<open>sendPulse\<close> from the reading of the contact to the call of \<open>writeBool\<close>; the text
  is the same in both drivers.\<close>

definition sendPulse_write :: "machine \<Rightarrow> machine" where
  "sendPulse_write m =
     (let s = dev m;
          isCurrentlyOpen = (getCapabilityValue ''alarm_contact'' s = JBool True);
          expectedEndState = (\<not> isCurrentlyOpen)
      in suspend (AfterWrite expectedEndState)
           (m\<lparr>dev := s\<lparr>effects := effects s @ [WriteBool dataPoints_doorTrigger True]\<rparr>\<rparr>))"

text \<open>\<open>sendPulse\<close> up to its first \<open>await\<close>.\<close>

definition sendPulse_begin :: "machine \<Rightarrow> machine" where
  "sendPulse_begin m =
     (if hasCapability ''garage_Door_State_Capability'' (dev m)
      then suspend AfterMovingStatus
             (m\<lparr>dev := setCapabilityValue ''garage_Door_State_Capability'' (JStr ''moving'')
                          (dev m)\<rparr>)
      else sendPulse_write m)"

text \<open>The first write has been answered.\<close>

definition sendPulse_written :: "bool \<Rightarrow> write_outcome \<Rightarrow> machine \<Rightarrow> machine" where
  "sendPulse_written expectedEndState w m =
     (case w of
        Resolved \<Rightarrow> m\<lparr>dev := startSafetyTimer expectedEndState (dev m)\<rparr>
      | Rejected msg \<Rightarrow>
          if isTimeout msg then m\<lparr>dev := startSafetyTimer expectedEndState (dev m)\<rparr>
          else m\<lparr>dev := snd (homey_setTimeout (RetryCb expectedEndState) 500 (dev m))\<rparr>)"

text \<open>The retry delay is over: the second write is called.\<close>

definition sendPulse_retry_write :: "bool \<Rightarrow> machine \<Rightarrow> machine" where
  "sendPulse_retry_write expectedEndState m =
     suspend (AfterRetryWrite expectedEndState)
       (m\<lparr>dev := (dev m)\<lparr>effects := effects (dev m) @ [WriteBool dataPoints_doorTrigger True]\<rparr>\<rparr>)"

definition sendPulse_recover :: "machine \<Rightarrow> machine" where
  "sendPulse_recover m = m\<lparr>dev := snd (homey_setTimeout RecoveryCb 3000 (dev m))\<rparr>"

text \<open>The second write has been answered.\<close>

definition sendPulse_retry_written :: "bool \<Rightarrow> write_outcome \<Rightarrow> machine \<Rightarrow> machine" where
  "sendPulse_retry_written expectedEndState w m =
     (case w of
        Resolved \<Rightarrow> m\<lparr>dev := startSafetyTimer expectedEndState (dev m)\<rparr>
      | Rejected msg \<Rightarrow>
          if hasCapability ''garage_Door_State_Capability'' (dev m)
          then suspend AfterErrorStatus
                 (m\<lparr>dev := setCapabilityValue ''garage_Door_State_Capability'' (JStr ''error'')
                              (dev m)\<rparr>)
          else sendPulse_recover m)"

text \<open>\<open>triggerDoorPulse\<close> up to its first \<open>await\<close>: with a countdown and the status
  capability it waits for the status write, between the two \<open>clearTimeout\<close> and the
  assignment of \<open>delayedTriggerTimer\<close>. The text is the same in both drivers.\<close>

definition triggerDoorPulse_begin :: "machine \<Rightarrow> machine" where
  "triggerDoorPulse_begin m =
     (let s1 = homey_clearTimeout (delayedTriggerTimer (dev m)) (dev m);
          s2 = homey_clearTimeout (safetyTimer s1) s1;
          countdownSeconds = orDefault (parseInt (settings s2 ''count_down'')) 0
      in if countdownSeconds \<le> 0 then sendPulse_begin (m\<lparr>dev := s2\<rparr>)
         else if hasCapability ''garage_Door_State_Capability'' s2
         then suspend (AfterCountdownStatus countdownSeconds)
                (m\<lparr>dev := setCapabilityValue ''garage_Door_State_Capability'' (JStr ''2'') s2\<rparr>)
         else triggerDoorPulse_schedule countdownSeconds (m\<lparr>dev := s2\<rparr>))"

text \<open>A waiting handler goes on, in the driver with the retry and in
  \<open>drivers/Garage_Door_Opener/device.js\<close>, where every answer to the write leads to the
  safety timer.\<close>

fun continue :: "task \<Rightarrow> env \<Rightarrow> machine \<Rightarrow> machine" where
  "continue (AfterCountdownStatus k) e m = triggerDoorPulse_schedule k m"
| "continue AfterMovingStatus e m = sendPulse_write m"
| "continue (AfterWrite x) e m = sendPulse_written x (writeOutcome e) m"
| "continue (AfterRetryWrite x) e m = sendPulse_retry_written x (writeOutcome e) m"
| "continue AfterErrorStatus e m = sendPulse_recover m"

fun continue_basic :: "task \<Rightarrow> env \<Rightarrow> machine \<Rightarrow> machine" where
  "continue_basic (AfterCountdownStatus k) e m = triggerDoorPulse_schedule k m"
| "continue_basic AfterMovingStatus e m = sendPulse_write m"
| "continue_basic (AfterWrite x) e m = m\<lparr>dev := startSafetyTimer x (dev m)\<rparr>"
| "continue_basic k e m = m"

definition resume :: "nat \<Rightarrow> env \<Rightarrow> machine \<Rightarrow> machine" where
  "resume i e m =
     (case find (\<lambda>w. fst w = i) (waiting m) of
        None \<Rightarrow> m
      | Some w \<Rightarrow> continue (snd w) e (m\<lparr>waiting := filter (\<lambda>w. fst w \<noteq> i) (waiting m)\<rparr>))"

definition resume_basic :: "nat \<Rightarrow> env \<Rightarrow> machine \<Rightarrow> machine" where
  "resume_basic i e m =
     (case find (\<lambda>w. fst w = i) (waiting m) of
        None \<Rightarrow> m
      | Some w \<Rightarrow>
          continue_basic (snd w) e (m\<lparr>waiting := filter (\<lambda>w. fst w \<noteq> i) (waiting m)\<rparr>))"

text \<open>A timer fires. The pulse sender and its retry run up to their next \<open>await\<close>; the
  other callbacks are the one-step ones.\<close>

definition timerFires :: "handle \<Rightarrow> env \<Rightarrow> machine \<Rightarrow> machine" where
  "timerFires h e m =
     (case find (\<lambda>t. fst t = h) (pending (dev m)) of
        None \<Rightarrow> m
      | Some t \<Rightarrow>
          (case snd (snd t) of
             SendPulseCb \<Rightarrow> sendPulse_begin (m\<lparr>dev := dropTimer h (dev m)\<rparr>)
           | RetryCb x \<Rightarrow> sendPulse_retry_write x (m\<lparr>dev := dropTimer h (dev m)\<rparr>)
           | cb \<Rightarrow> m\<lparr>dev := runCallback cb e (dropTimer h (dev m))\<rparr>))"

definition timerFires_basic :: "handle \<Rightarrow> env \<Rightarrow> machine \<Rightarrow> machine" where
  "timerFires_basic h e m =
     (case find (\<lambda>t. fst t = h) (pending (dev m)) of
        None \<Rightarrow> m
      | Some t \<Rightarrow>
          (case snd (snd t) of
             SendPulseCb \<Rightarrow> sendPulse_begin (m\<lparr>dev := dropTimer h (dev m)\<rparr>)
           | cb \<Rightarrow> m\<lparr>dev := runCallback_basic cb e (dropTimer h (dev m))\<rparr>))"

text \<open>What can happen next: a trigger request arrives, the host answers the call a
  waiting handler awaits, a report arrives, a timer fires.\<close>

datatype stimulus = Request | Answer nat env | Report dpvalue | Timer handle env

fun react :: "(8 word list \<Rightarrow> string) \<Rightarrow> stimulus \<Rightarrow> machine \<Rightarrow> machine" where
  "react dec Request m = triggerDoorPulse_begin m"
| "react dec (Answer i e) m = resume i e m"
| "react dec (Report d) m = m\<lparr>dev := handleDataPoint dec d (dev m)\<rparr>"
| "react dec (Timer h e) m = timerFires h e m"

fun reacts :: "(8 word list \<Rightarrow> string) \<Rightarrow> stimulus list \<Rightarrow> machine \<Rightarrow> machine" where
  "reacts dec [] m = m"
| "reacts dec (x # xs) m = reacts dec xs (react dec x m)"

fun react_basic :: "(8 word list \<Rightarrow> string) \<Rightarrow> stimulus \<Rightarrow> machine \<Rightarrow> machine" where
  "react_basic dec Request m = triggerDoorPulse_begin m"
| "react_basic dec (Answer i e) m = resume_basic i e m"
| "react_basic dec (Report d) m = m\<lparr>dev := handleDataPoint_basic dec d (dev m)\<rparr>"
| "react_basic dec (Timer h e) m = timerFires_basic h e m"

fun reacts_basic :: "(8 word list \<Rightarrow> string) \<Rightarrow> stimulus list \<Rightarrow> machine \<Rightarrow> machine" where
  "reacts_basic dec [] m = m"
| "reacts_basic dec (x # xs) m = reacts_basic dec xs (react_basic dec x m)"

text \<open>The host answers the handler that began to wait last.\<close>

definition answer :: "env \<Rightarrow> machine \<Rightarrow> machine" where
  "answer e m = (case waiting m of [] \<Rightarrow> m | w # ws \<Rightarrow> resume (fst (last (w # ws))) e m)"

definition answer_basic :: "env \<Rightarrow> machine \<Rightarrow> machine" where
  "answer_basic e m =
     (case waiting m of [] \<Rightarrow> m | w # ws \<Rightarrow> resume_basic (fst (last (w # ws))) e m)"

section \<open>Timer discipline and example devices\<close>

text \<open>
  The timers the object can still reach: every pending timer has a handle the scheduler
  has already given out, no handle is pending twice, and a timer field names a pending
  timer exactly when that timer was scheduled through this field (the countdown through
  \<open>delayedTriggerTimer\<close>, the safety check through \<open>safetyTimer\<close>, the open-time alarm
  through \<open>openAlarmTimer\<close>).
\<close>

definition wf_timers :: "device \<Rightarrow> bool" where
  "wf_timers s =
     (distinct (map fst (pending s)) \<and>
      (\<forall>t \<in> set (pending s).
         fst t < nextHandle s \<and>
         (delayedTriggerTimer s = Some (fst t)) = (snd (snd t) = SendPulseCb) \<and>
         (safetyTimer s = Some (fst t)) = isSafety (snd (snd t)) \<and>
         (openAlarmTimer s = Some (fst t)) = isOpenAlarm (snd (snd t))) \<and>
      (\<forall>h. delayedTriggerTimer s = Some h \<longrightarrow> h < nextHandle s) \<and>
      (\<forall>h. safetyTimer s = Some h \<longrightarrow> h < nextHandle s) \<and>
      (\<forall>h. openAlarmTimer s = Some h \<longrightarrow> h < nextHandle s))"

text \<open>The pulse writes among the effects.\<close>

definition pulseWrites :: "device \<Rightarrow> nat" where
  "pulseWrites s = length (filter (\<lambda>x. x = WriteBool dataPoints_doorTrigger True) (effects s))"

definition isRetry :: "callback \<Rightarrow> bool" where
  "isRetry cb = (case cb of RetryCb x \<Rightarrow> True | _ \<Rightarrow> False)"

definition retryPending :: "device \<Rightarrow> (handle \<times> int \<times> callback) list" where
  "retryPending s = filter (\<lambda>t. isRetry (snd (snd t))) (pending s)"

text \<open>A flow card lookup that returns a card, so that \<open>trigger\<close> is called on it.\<close>

definition cardFound :: "env \<Rightarrow> bool" where
  "cardFound e = (cardOutcome e = CardTriggered \<or> cardOutcome e = CardTriggerRejected)"

text \<open>Devices and host answers for the examples: a closed door with the three
  capabilities; a write that is acknowledged, one that fails with a transport error and
  one that times out; a decoding of buffers with one character for each byte.\<close>

definition example_caps :: "string \<rightharpoonup> jsval" where
  "example_caps =
     [''alarm_contact'' \<mapsto> JBool False, ''garage_Door_Button'' \<mapsto> JBool False,
      ''garage_Door_State_Capability'' \<mapsto> JStr ''closed'']"

definition env_ok :: env where
  "env_ok = \<lparr>writeOutcome = Resolved, cardOutcome = CardTriggered\<rparr>"

definition env_error :: env where
  "env_error = \<lparr>writeOutcome = Rejected (Some ''MAC no ack''), cardOutcome = CardTriggered\<rparr>"

definition env_timeout :: env where
  "env_timeout =
     \<lparr>writeOutcome = Rejected (Some ''Timeout: Expected Response''), cardOutcome = CardTriggered\<rparr>"

definition bytesText :: "8 word list \<Rightarrow> string" where
  "bytesText bs = map (\<lambda>b. char_of (unat b)) bs"

definition report_open :: dpvalue where
  "report_open = \<lparr>dp = 3, dtype = 1, data = [1]\<rparr>"

definition report_closed :: dpvalue where
  "report_closed = \<lparr>dp = 3, dtype = 1, data = [0]\<rparr>"

text \<open>A fresh device with a countdown of 5 seconds and no handler waiting.\<close>

definition example_countdown :: machine where
  "example_countdown = start (init example_caps [''count_down'' \<mapsto> SNum 5])"

section \<open>Properties of the data parsing\<close>

lemma sint_cases32: "sint (x :: 32 word) = uint x \<or> sint x = uint x - 2 ^ 32"
proof -
  have "sint x = take_bit 32 (uint x) - 2 ^ 32 * of_bool (bit (uint x) 31)"
    by (simp add: sint_uint signed_take_bit_eq_take_bit_minus)
  moreover have "take_bit 32 (uint x) = uint x"
    using uint_bounded [of x] by (simp add: take_bit_eq_mod)
  ultimately show ?thesis by (cases "bit (uint x) 31") simp_all
qed

lemma dvd_sint_shift: "256 dvd sint (w * 256 :: 32 word)"
proof -
  have a: "uint (w * 256 :: 32 word) = (uint w * 256) mod 2 ^ 32"
    by (simp add: uint_word_ariths)
  have "(256::int) dvd (uint w * 256) mod (256 * 2 ^ 24)"
    by (simp add: dvd_mod_iff)
  then have b: "256 dvd uint (w * 256 :: 32 word)" using a by simp
  have c: "(256::int) dvd 2 ^ 32" by simp
  show ?thesis using sint_cases32 [of "w * 256"] b c by (auto simp only: dvd_diff)
qed

text \<open>One round of the loop: the shifted value has its low byte free, so adding the next
  byte cannot leave the signed 32-bit range.\<close>

lemma shl_step: "js_shl (sint (w :: 32 word)) 8 + uint (c :: 8 word) = sint (w * 256 + ucast c)"
proof -
  let ?x = "w * 256 :: 32 word"
  have shl: "js_shl (sint w) 8 = sint ?x"
    by (simp add: js_shl_def push_bit_eq_mult)
  have d: "256 dvd sint ?x" by (rule dvd_sint_shift)
  have lo: "- (2 ^ 31) \<le> sint ?x" using sint_ge [of ?x] by simp
  have hi: "sint ?x < 2 ^ 31" using sint_lt [of ?x] by simp
  have hi': "sint ?x \<le> 2 ^ 31 - 256" using d hi by (auto elim!: dvdE)
  have c0: "0 \<le> uint c" by simp
  have c1: "uint c < 256" using uint_bounded [of c] by simp
  have uc: "sint (ucast c :: 32 word) = uint c"
  proof -
    have "signed_take_bit 31 (uint c) = uint c"
    proof (rule signed_take_bit_int_eq_self)
      have "(- (2 ^ 31) :: int) \<le> 0" by simp
      then show "- (2 ^ 31) \<le> uint c" using c0 by (rule order_trans)
      have "(256 :: int) \<le> 2 ^ 31" by simp
      with c1 show "uint c < 2 ^ 31" by (rule less_le_trans)
    qed
    then show ?thesis by (simp add: signed_ucast_eq)
  qed
  have "sint (?x + ucast c) = signed_take_bit 31 (sint ?x + uint c)"
    by (simp add: sint_word_ariths uc)
  also have "\<dots> = sint ?x + uint c"
  proof (rule signed_take_bit_int_eq_self)
    show "- (2 ^ 31) \<le> sint ?x + uint c" using lo c0 by (simp add: add_increasing2)
    show "sint ?x + uint c < 2 ^ 31" using hi' c1 by simp
  qed
  finally show ?thesis using shl by simp
qed

lemma convertMultiByte_loop_word: "convertMultiByte_loop (sint w) bs = sint (wloop w bs)"
  by (induction bs arbitrary: w) (simp_all add: wloop_def shl_step)

lemma wloop_be_unsigned:
  "wloop w bs = w * 256 ^ length bs + word_of_nat (foldl (\<lambda>acc b. acc * 256 + unat b) 0 bs)"
  by (induction bs rule: rev_induct) (simp_all add: wloop_def algebra_simps)

text \<open>\<open>convertMultiByte\<close> returns the big-endian number of the bytes reduced to 32 bits and
  read as a signed number.\<close>

lemma convertMultiByte_wrap:
  "convertMultiByte bs = sint (word_of_nat (be_unsigned bs) :: 32 word)"
  using convertMultiByte_loop_word [of 0 bs]
  by (simp add: convertMultiByte_def wloop_be_unsigned be_unsigned_def)

lemma convertMultiByte_small:
  "be_unsigned bs < 2 ^ 31 \<Longrightarrow> convertMultiByte bs = int (be_unsigned bs)"
  by (simp add: convertMultiByte_wrap signed_of_nat signed_take_bit_int_eq_self)

text \<open>
  C8 (as stated): tag 2 returns the big-endian unsigned integer formed from all payload
  bytes. It does not for the four bytes 80 00 00 00: the unsigned number is 2147483648,
  and \<open>getDataValue\<close> returns -2147483648, because \<open><<\<close> works on signed 32-bit
  integers.
\<close>

theorem getDataValue_tag2_not_unsigned:
  "getDataValue \<lparr>dp = 4, dtype = 2, data = [0x80, 0, 0, 0]\<rparr> = JNum (- 2147483648) \<and>
   int (be_unsigned [0x80, 0, 0, 0]) = 2147483648"
  by (simp add: getDataValue_def convertMultiByte_def js_shl_def be_unsigned_def)

text \<open>
  C8 (amended): \<open>getDataValue\<close> decodes a payload by its datatype tag. Tag 0 returns the
  raw bytes unchanged; tag 1 returns true iff the first byte exists and equals 1; tag 2
  returns the big-endian number formed from all payload bytes, reduced to 32 bits and read
  as a signed number, which is the unsigned big-endian number whenever that number is
  below \<open>2^31\<close>; tag 4 returns the first byte (\<open>undefined\<close> for an empty payload); any other
  tag returns the raw bytes unchanged.
\<close>

theorem getDataValue_decodes:
  "(dtype d = 0 \<longrightarrow> getDataValue d = JBuf (data d)) \<and>
   (dtype d = 1 \<longrightarrow> getDataValue d = JBool (take 1 (data d) = [1])) \<and>
   (dtype d = 2 \<longrightarrow>
      getDataValue d = JNum (sint (word_of_nat (be_unsigned (data d)) :: 32 word))) \<and>
   (dtype d = 2 \<and> be_unsigned (data d) < 2 ^ 31 \<longrightarrow>
      getDataValue d = JNum (int (be_unsigned (data d)))) \<and>
   (dtype d = 4 \<longrightarrow>
      getDataValue d = (case data d of [] \<Rightarrow> JUndefined | b # bs \<Rightarrow> JNum (uint b))) \<and>
   (dtype d \<notin> {0, 1, 2, 4} \<longrightarrow> getDataValue d = JBuf (data d))"
proof -
  have one: "\<And>b :: 8 word. (uint b = 1) = (b = 1)"
    by (metis uint_1 word_uint_eq_iff)
  have t1: "(case data d of [] \<Rightarrow> JUndefined | b # x \<Rightarrow> JNum (uint b)) = JNum 1
      \<longleftrightarrow> take 1 (data d) = [1]"
    by (cases "data d") (simp_all add: one)
  show ?thesis
    by (simp add: getDataValue_def t1 convertMultiByte_small index0_def)
      (simp add: convertMultiByte_wrap)
qed

theorem getDataValue_decodes_witness:
  "dtype \<lparr>dp = 4, dtype = 2, data = [0, 0, 0, 20]\<rparr> = 2 \<and>
   be_unsigned [0, 0, 0, 20] < 2 ^ 31 \<and>
   getDataValue \<lparr>dp = 4, dtype = 2, data = [0, 0, 0, 20]\<rparr> = JNum 20"
  using getDataValue_decodes [of "\<lparr>dp = 4, dtype = 2, data = [0, 0, 0, 20]\<rparr>"]
  by (simp add: be_unsigned_def)

section \<open>The timer discipline is an invariant\<close>

lemma setCapabilityValue_frame [simp]:
  "pending (setCapabilityValue c v s) = pending s"
  "nextHandle (setCapabilityValue c v s) = nextHandle s"
  "delayedTriggerTimer (setCapabilityValue c v s) = delayedTriggerTimer s"
  "safetyTimer (setCapabilityValue c v s) = safetyTimer s"
  "openAlarmTimer (setCapabilityValue c v s) = openAlarmTimer s"
  "settings (setCapabilityValue c v s) = settings s"
  "effects (setCapabilityValue c v s) = effects s"
  by (simp_all add: setCapabilityValue_def)

lemma wf_setCapabilityValue [simp]: "wf_timers (setCapabilityValue c v s) = wf_timers s"
  by (simp add: wf_timers_def)

lemma wf_effects [simp]: "wf_timers (s\<lparr>effects := x\<rparr>) = wf_timers s"
  by (simp add: wf_timers_def)

lemma wf_clearTimeout: "wf_timers s \<Longrightarrow> wf_timers (homey_clearTimeout ho s)"
  by (auto simp: wf_timers_def homey_clearTimeout_def distinct_map_filter split: option.splits)

lemma wf_startSafetyTimer: "wf_timers s \<Longrightarrow> wf_timers (startSafetyTimer x s)"
  by (auto simp: wf_timers_def startSafetyTimer_def homey_clearTimeout_def homey_setTimeout_def
      Let_def isSafety_def isOpenAlarm_def distinct_map_filter split: option.splits)

lemma wf_triggerFlowCard [simp]: "wf_timers (triggerFlowCard n c s) = wf_timers s"
  by (simp add: triggerFlowCard_def split: card_outcome.splits)

lemma wf_triggerFlowCard_basic [simp]: "wf_timers (triggerFlowCard_basic n c s) = wf_timers s"
  by (simp add: triggerFlowCard_basic_def split: card_outcome.splits)

lemma wf_setTimeout_other:
  "wf_timers s \<Longrightarrow> cb \<noteq> SendPulseCb \<Longrightarrow> \<not> isSafety cb \<Longrightarrow> \<not> isOpenAlarm cb \<Longrightarrow>
   wf_timers (snd (homey_setTimeout cb ms s))"
  by (auto simp: wf_timers_def homey_setTimeout_def)

lemma wf_sendPulse: "wf_timers s \<Longrightarrow> wf_timers (sendPulse e s)"
  by (auto simp: sendPulse_def Let_def wf_startSafetyTimer wf_setTimeout_other isSafety_def
      isOpenAlarm_def split: write_outcome.splits)

lemma wf_sendPulse_retry: "wf_timers s \<Longrightarrow> wf_timers (sendPulse_retry x e s)"
  by (auto simp: sendPulse_retry_def Let_def wf_startSafetyTimer wf_setTimeout_other isSafety_def
      isOpenAlarm_def split: write_outcome.splits)

lemma wf_sendPulse_basic: "wf_timers s \<Longrightarrow> wf_timers (sendPulse_basic e s)"
  by (auto simp: sendPulse_basic_def Let_def wf_startSafetyTimer)

lemma wf_triggerDoorPulse: "wf_timers s \<Longrightarrow> wf_timers (triggerDoorPulse e s)"
  apply (simp add: triggerDoorPulse_def Let_def wf_sendPulse wf_clearTimeout split: prod.splits)
  apply (auto simp: wf_timers_def homey_clearTimeout_def homey_setTimeout_def
      Let_def isSafety_def isOpenAlarm_def distinct_map_filter split: option.splits)
  done

lemma wf_triggerDoorPulse_basic: "wf_timers s \<Longrightarrow> wf_timers (triggerDoorPulse_basic e s)"
  apply (simp add: triggerDoorPulse_basic_def Let_def wf_sendPulse_basic wf_clearTimeout
      split: prod.splits)
  apply (auto simp: wf_timers_def homey_clearTimeout_def homey_setTimeout_def
      Let_def isSafety_def isOpenAlarm_def distinct_map_filter split: option.splits)
  done

lemma wf_startOpenAlarmTimer: "wf_timers s \<Longrightarrow> wf_timers (startOpenAlarmTimer s)"
  by (auto simp: wf_timers_def startOpenAlarmTimer_def homey_clearTimeout_def
      homey_setTimeout_def Let_def isSafety_def isOpenAlarm_def distinct_map_filter
      split: option.splits)

lemma wf_handleStatus [simp]: "wf_timers (handleStatus dec v s) = wf_timers s"
  by (simp add: handleStatus_def split: option.splits)

lemma wf_handleDataPoint: "wf_timers s \<Longrightarrow> wf_timers (handleDataPoint dec d s)"
  by (simp add: handleDataPoint_def Let_def wf_startOpenAlarmTimer stopOpenAlarmTimer_def
      wf_clearTimeout)

lemma wf_handleDataPoint_basic: "wf_timers s \<Longrightarrow> wf_timers (handleDataPoint_basic dec d s)"
  by (simp add: handleDataPoint_basic_def Let_def wf_clearTimeout)

lemma wf_safetyCallback [simp]: "wf_timers (safetyCallback x e s) = wf_timers s"
  by (simp add: safetyCallback_def Let_def)

lemma wf_safetyCallback_basic [simp]: "wf_timers (safetyCallback_basic x e s) = wf_timers s"
  by (simp add: safetyCallback_basic_def Let_def)

lemma wf_openAlarmCallback [simp]: "wf_timers (openAlarmCallback e s) = wf_timers s"
  by (simp add: openAlarmCallback_def Let_def)

lemma wf_recoveryCallback [simp]: "wf_timers (recoveryCallback s) = wf_timers s"
  by (simp add: recoveryCallback_def Let_def)

lemma wf_runCallback: "wf_timers s \<Longrightarrow> wf_timers (runCallback cb e s)"
  by (cases cb) (simp_all add: wf_sendPulse wf_sendPulse_retry)

lemma wf_runCallback_basic: "wf_timers s \<Longrightarrow> wf_timers (runCallback_basic cb e s)"
  by (cases cb) (simp_all add: wf_sendPulse_basic)

lemma wf_dropTimer: "wf_timers s \<Longrightarrow> wf_timers (dropTimer h s)"
  by (auto simp: wf_timers_def dropTimer_def distinct_map_filter)

lemma wf_fire: "wf_timers s \<Longrightarrow> wf_timers (fire h e s)"
  by (simp add: fire_def wf_runCallback wf_dropTimer split: option.splits)

lemma wf_fire_basic: "wf_timers s \<Longrightarrow> wf_timers (fire_basic h e s)"
  by (simp add: fire_basic_def wf_runCallback_basic wf_dropTimer split: option.splits)

lemma wf_step: "wf_timers s \<Longrightarrow> wf_timers (step dec ev s)"
  by (cases ev) (simp_all add: wf_triggerDoorPulse wf_handleDataPoint wf_fire)

lemma wf_step_basic: "wf_timers s \<Longrightarrow> wf_timers (step_basic dec ev s)"
  by (cases ev) (simp_all add: wf_triggerDoorPulse_basic wf_handleDataPoint_basic wf_fire_basic)

lemma wf_init: "wf_timers (init cs st)"
  by (simp add: wf_timers_def init_def)

text \<open>Every state reached from a fresh device by handlers that each run as one step keeps
  the timer discipline. Trigger requests that overlap do not keep it: see
  \<open>overlapping_requests_break_discipline\<close>.\<close>

lemma wf_run: "wf_timers s \<Longrightarrow> wf_timers (run dec evs s)"
  by (induction evs arbitrary: s) (simp_all add: wf_step)

lemma wf_run_basic: "wf_timers s \<Longrightarrow> wf_timers (run_basic dec evs s)"
  by (induction evs arbitrary: s) (simp_all add: wf_step_basic)

lemma wf_reachable: "wf_timers (run dec evs (init cs st))"
  by (simp add: wf_run wf_init)

lemma wf_reachable_basic: "wf_timers (run_basic dec evs (init cs st))"
  by (simp add: wf_run_basic wf_init)

section \<open>What the host calls leave unchanged\<close>

lemma clearTimeout_frame [simp]:
  "delayedTriggerTimer (homey_clearTimeout ho s) = delayedTriggerTimer s"
  "safetyTimer (homey_clearTimeout ho s) = safetyTimer s"
  "openAlarmTimer (homey_clearTimeout ho s) = openAlarmTimer s"
  "nextHandle (homey_clearTimeout ho s) = nextHandle s"
  "caps (homey_clearTimeout ho s) = caps s"
  "settings (homey_clearTimeout ho s) = settings s"
  "effects (homey_clearTimeout ho s) = effects s"
  by (simp_all add: homey_clearTimeout_def split: option.splits)

lemma pending_clearTimeout:
  "pending (homey_clearTimeout ho s) =
     (case ho of None \<Rightarrow> pending s | Some h \<Rightarrow> filter (\<lambda>t. fst t \<noteq> h) (pending s))"
  by (simp add: homey_clearTimeout_def split: option.splits)

lemma hasCapability_frame [simp]:
  "hasCapability c (setCapabilityValue c' v s) = hasCapability c s"
  "hasCapability c (homey_clearTimeout ho s) = hasCapability c s"
  "hasCapability c (s\<lparr>effects := x\<rparr>) = hasCapability c s"
  by (simp_all add: hasCapability_def setCapabilityValue_def)

lemma getCapabilityValue_frame [simp]:
  "getCapabilityValue c (setCapabilityValue c' v s) =
     (if c' = c \<and> hasCapability c s then v else getCapabilityValue c s)"
  "getCapabilityValue c (homey_clearTimeout ho s) = getCapabilityValue c s"
  "getCapabilityValue c (s\<lparr>effects := x\<rparr>) = getCapabilityValue c s"
  by (auto simp: getCapabilityValue_def hasCapability_def setCapabilityValue_def)

lemma kinds_setCapabilityValue [simp]:
  "safetyPending (setCapabilityValue c v s) = safetyPending s"
  "countdownPending (setCapabilityValue c v s) = countdownPending s"
  "openAlarmPending (setCapabilityValue c v s) = openAlarmPending s"
  "retryPending (setCapabilityValue c v s) = retryPending s"
  by (simp_all add: safetyPending_def countdownPending_def openAlarmPending_def retryPending_def)

lemma kinds_clear_empty:
  "safetyPending s = [] \<Longrightarrow> safetyPending (homey_clearTimeout ho s) = []"
  "countdownPending s = [] \<Longrightarrow> countdownPending (homey_clearTimeout ho s) = []"
  by (auto simp: safetyPending_def countdownPending_def pending_clearTimeout filter_empty_conv
      split: option.splits)

text \<open>Cancelling the countdown and the safety timer through their fields leaves neither
  kind pending.\<close>

lemma clear_both:
  assumes "wf_timers s"
  shows "safetyPending (homey_clearTimeout (delayedTriggerTimer s)
           (homey_clearTimeout (safetyTimer s) s)) = []"
    and "countdownPending (homey_clearTimeout (delayedTriggerTimer s)
           (homey_clearTimeout (safetyTimer s) s)) = []"
    and "safetyPending (homey_clearTimeout (safetyTimer s)
           (homey_clearTimeout (delayedTriggerTimer s) s)) = []"
    and "countdownPending (homey_clearTimeout (safetyTimer s)
           (homey_clearTimeout (delayedTriggerTimer s) s)) = []"
  using assms
  by (auto simp: wf_timers_def safetyPending_def countdownPending_def pending_clearTimeout
      filter_empty_conv split: option.splits)

lemma startOpenAlarmTimer_frame [simp]:
  "caps (startOpenAlarmTimer s) = caps s"
  "settings (startOpenAlarmTimer s) = settings s"
  "effects (startOpenAlarmTimer s) = effects s"
  "delayedTriggerTimer (startOpenAlarmTimer s) = delayedTriggerTimer s"
  "safetyTimer (startOpenAlarmTimer s) = safetyTimer s"
  "hasCapability c (startOpenAlarmTimer s) = hasCapability c s"
  "getCapabilityValue c (startOpenAlarmTimer s) = getCapabilityValue c s"
  by (simp_all add: startOpenAlarmTimer_def homey_setTimeout_def Let_def hasCapability_def
      getCapabilityValue_def)

lemma kinds_startOpenAlarmTimer_empty:
  "safetyPending s = [] \<Longrightarrow> safetyPending (startOpenAlarmTimer s) = []"
  "countdownPending s = [] \<Longrightarrow> countdownPending (startOpenAlarmTimer s) = []"
  by (auto simp: startOpenAlarmTimer_def homey_setTimeout_def Let_def safetyPending_def
      countdownPending_def pending_clearTimeout filter_empty_conv isSafety_def
      split: option.splits)

lemma safetyPending_startSafetyTimer:
  "wf_timers s \<Longrightarrow>
   safetyPending (startSafetyTimer x s) =
     [(nextHandle s, orDefault (parseInt (settings s ''run_time'')) 20 * 1000, SafetyCb x)]"
  by (auto simp: startSafetyTimer_def homey_setTimeout_def Let_def safetyPending_def
      pending_clearTimeout wf_timers_def isSafety_def filter_empty_conv split: option.splits)

section \<open>The safety timer\<close>

text \<open>
  C1: when the safety timer fires, its handler compares the last known contact value
  with the expected end state recorded when the pulse was sent. If they differ, it sets
  the door button capability to the actual contact value, sets the status to Alarm (the
  value \<open>'1'\<close>) and emits exactly one runtime-discrepancy alert; if they are equal, it
  changes no state and emits no alert. The device is taken to have the button and the
  status capability and the flow card to be found; both drivers do the same. The only
  other change is that the fired timer has left the scheduler.
\<close>

theorem safety_timer_fires:
  "find (\<lambda>t. fst t = h) (pending s) = Some (h, ms, SafetyCb expected) \<Longrightarrow>
   (getCapabilityValue ''alarm_contact'' s \<noteq> JBool expected \<and>
    hasCapability ''garage_Door_Button'' s \<and>
    hasCapability ''garage_Door_State_Capability'' s \<and> cardFound e \<longrightarrow>
      fire h e s =
        (dropTimer h s)
          \<lparr>caps := (caps s)(''garage_Door_Button'' \<mapsto> getCapabilityValue ''alarm_contact'' s,
                            ''garage_Door_State_Capability'' \<mapsto> JStr ''1''),
           effects := effects s @ [FlowTrigger ''runtime_alarm_triggered'']\<rparr> \<and>
      fire_basic h e s = fire h e s) \<and>
   (getCapabilityValue ''alarm_contact'' s = JBool expected \<longrightarrow>
      fire h e s = dropTimer h s \<and> fire_basic h e s = dropTimer h s)"
  by (auto simp: fire_def fire_basic_def safetyCallback_def safetyCallback_basic_def Let_def
      dropTimer_def getCapabilityValue_def hasCapability_def setCapabilityValue_def
      triggerFlowCard_def triggerFlowCard_basic_def cardFound_def)

theorem safety_timer_fires_witness:
  "find (\<lambda>t. fst t = 0) (pending (triggerDoorPulse env_ok (init example_caps Map.empty)))
     = Some (0, 20000, SafetyCb True) \<and>
   getCapabilityValue ''alarm_contact'' (triggerDoorPulse env_ok (init example_caps Map.empty))
     \<noteq> JBool True \<and>
   hasCapability ''garage_Door_Button'' (triggerDoorPulse env_ok (init example_caps Map.empty)) \<and>
   hasCapability ''garage_Door_State_Capability''
     (triggerDoorPulse env_ok (init example_caps Map.empty)) \<and>
   cardFound env_ok \<and>
   effects (fire 0 env_ok (triggerDoorPulse env_ok (init example_caps Map.empty)))
     = [WriteBool 1 True, FlowTrigger ''runtime_alarm_triggered''] \<and>
   caps (fire 0 env_ok (triggerDoorPulse env_ok (init example_caps Map.empty)))
      ''garage_Door_State_Capability'' = Some (JStr ''1'')"
  using safety_timer_fires
    [of 0 "triggerDoorPulse env_ok (init example_caps Map.empty)" 20000 True env_ok]
  by (simp add: triggerDoorPulse_def sendPulse_def startSafetyTimer_def init_def example_caps_def
      env_ok_def homey_clearTimeout_def homey_setTimeout_def orDefault_def hasCapability_def
      setCapabilityValue_def getCapabilityValue_def cardFound_def dropTimer_def
      dataPoints_doorTrigger_def Let_def)

text \<open>
  The confirmation window of \<open>startSafetyTimer\<close>, the same in both drivers: the seconds
  the stored \<open>run_time\<close> parses to, and 20 seconds if it parses to 0 or to no number (a
  configured run time of 0 behaves as 20, not as an immediate check). The window is above 0
  whenever the setting does not parse to a number below 0.
\<close>

theorem safety_window:
  "wf_timers s \<Longrightarrow>
   (parseInt (settings s ''run_time'') = None \<or> parseInt (settings s ''run_time'') = Some 0 \<longrightarrow>
      safetyPending (startSafetyTimer x s) = [(nextHandle s, 20000, SafetyCb x)]) \<and>
   (\<forall>n. parseInt (settings s ''run_time'') = Some n \<and> n \<noteq> 0 \<longrightarrow>
      safetyPending (startSafetyTimer x s) = [(nextHandle s, n * 1000, SafetyCb x)]) \<and>
   (\<forall>h ms cb. (h, ms, cb) \<in> set (safetyPending (startSafetyTimer x s)) \<and>
       \<not> (\<exists>n. parseInt (settings s ''run_time'') = Some n \<and> n < 0) \<longrightarrow> 0 < ms)"
  by (auto simp: safetyPending_startSafetyTimer orDefault_def split: option.splits)

theorem safety_window_witness:
  "wf_timers (init example_caps [''run_time'' \<mapsto> SStr ''0'']) \<and>
   parseInt (settings (init example_caps [''run_time'' \<mapsto> SStr ''0'']) ''run_time'') = Some 0 \<and>
   safetyPending (startSafetyTimer True (init example_caps [''run_time'' \<mapsto> SStr ''0''])) =
     [(0, 20000, SafetyCb True)]"
proof -
  let ?s = "init example_caps [''run_time'' \<mapsto> SStr ''0'']"
  have a: "wf_timers ?s" by (rule wf_init)
  have b: "parseInt (settings ?s ''run_time'') = Some 0"
    by (simp add: init_def parseIntString_def parseMagnitude_def isWhite_def isDigit_def
        digitVal_def)
  have c: "nextHandle ?s = 0" by (simp add: init_def)
  from safety_window [OF a, of True] b c
  have "safetyPending (startSafetyTimer True ?s) = [(0, 20000, SafetyCb True)]"
    by simp
  with a b show ?thesis by blast
qed

text \<open>
  C9: \<open>startSafetyTimer\<close> always schedules a strictly positive confirmation window: if
  the stored \<open>run_time\<close> parses to 0 or to no number, the window is the default of 20
  seconds. The fallback \<open>parseInt(settings['run_time']) || 20\<close> replaces 0 and NaN only:
  with the stored run time -5 the safety timer is scheduled with -5000 ms, by
  \<open>startSafetyTimer\<close> itself and by a trigger request in either driver. The countdown and
  the open-time alarm test their setting with \<open><= 0\<close>; the run time has no such test.
  When that timer fires the door has had no time to move, and the discrepancy alert is
  raised.
\<close>

theorem safety_window_negative:
  "safetyPending (startSafetyTimer True (init example_caps [''run_time'' \<mapsto> SNum (- 5)])) =
     [(0, - 5000, SafetyCb True)] \<and>
   safetyPending (triggerDoorPulse env_ok (init example_caps [''run_time'' \<mapsto> SNum (- 5)])) =
     [(0, - 5000, SafetyCb True)] \<and>
   safetyPending
     (triggerDoorPulse_basic env_ok (init example_caps [''run_time'' \<mapsto> SNum (- 5)])) =
     [(0, - 5000, SafetyCb True)] \<and>
   effects (run bytesText [Trigger env_ok, Fire 0 env_ok]
     (init example_caps [''run_time'' \<mapsto> SNum (- 5)])) =
     [WriteBool 1 True, FlowTrigger ''runtime_alarm_triggered'']"
  by code_simp

section \<open>Data-point reports\<close>

text \<open>
  A position-contact sensor update (data point 3) received in a state that keeps the timer
  discipline: \<open>handleDataPoint\<close> cancels the pending safety timer and the pending
  countdown timer, stores the new open/closed value as the contact state
  (\<open>alarm_contact\<close>), and sets the status to Open or Closed from that value alone. Both
  drivers do. The handler cancels the timers that the fields \<open>safetyTimer\<close> and
  \<open>delayedTriggerTimer\<close> name; under the discipline these are all there are.
\<close>

theorem contact_update:
  "dp d = 3 \<Longrightarrow> wf_timers s \<Longrightarrow>
   safetyPending (handleDataPoint dec d s) = [] \<and>
   countdownPending (handleDataPoint dec d s) = [] \<and>
   (hasCapability ''alarm_contact'' s \<longrightarrow>
      getCapabilityValue ''alarm_contact'' (handleDataPoint dec d s) =
        JBool (truthy (getDataValue d))) \<and>
   (hasCapability ''garage_Door_State_Capability'' s \<longrightarrow>
      getCapabilityValue ''garage_Door_State_Capability'' (handleDataPoint dec d s) =
        JStr (if truthy (getDataValue d) then ''open'' else ''closed'')) \<and>
   safetyPending (handleDataPoint_basic dec d s) = [] \<and>
   countdownPending (handleDataPoint_basic dec d s) = [] \<and>
   (hasCapability ''alarm_contact'' s \<longrightarrow>
      getCapabilityValue ''alarm_contact'' (handleDataPoint_basic dec d s) =
        JBool (truthy (getDataValue d))) \<and>
   (hasCapability ''garage_Door_State_Capability'' s \<longrightarrow>
      getCapabilityValue ''garage_Door_State_Capability'' (handleDataPoint_basic dec d s) =
        JStr (if truthy (getDataValue d) then ''open'' else ''closed''))"
  by (simp add: handleDataPoint_def handleDataPoint_basic_def dataPoints_garageDoorContact_def
      Let_def stopOpenAlarmTimer_def clear_both kinds_clear_empty
      kinds_startOpenAlarmTimer_empty)

theorem contact_update_witness:
  "dp report_open = 3 \<and>
   wf_timers (triggerDoorPulse env_ok (init example_caps Map.empty)) \<and>
   hasCapability ''alarm_contact'' (triggerDoorPulse env_ok (init example_caps Map.empty)) \<and>
   safetyPending (triggerDoorPulse env_ok (init example_caps Map.empty)) =
     [(0, 20000, SafetyCb True)] \<and>
   safetyPending
     (handleDataPoint bytesText report_open
        (triggerDoorPulse env_ok (init example_caps Map.empty))) = [] \<and>
   getCapabilityValue ''alarm_contact''
     (handleDataPoint bytesText report_open
        (triggerDoorPulse env_ok (init example_caps Map.empty))) = JBool True"
proof -
  let ?s = "triggerDoorPulse env_ok (init example_caps Map.empty)"
  have a: "dp report_open = 3" by (simp add: report_open_def)
  have b: "wf_timers ?s" by (simp add: wf_triggerDoorPulse wf_init)
  have c: "hasCapability ''alarm_contact'' ?s"
    by (simp add: triggerDoorPulse_def sendPulse_def startSafetyTimer_def init_def
        example_caps_def env_ok_def homey_setTimeout_def orDefault_def hasCapability_def
        setCapabilityValue_def Let_def)
  have d: "safetyPending ?s = [(0, 20000, SafetyCb True)]"
    by (simp add: triggerDoorPulse_def sendPulse_def startSafetyTimer_def init_def
        example_caps_def env_ok_def homey_setTimeout_def homey_clearTimeout_def orDefault_def
        hasCapability_def setCapabilityValue_def getCapabilityValue_def safetyPending_def
        isSafety_def Let_def)
  have e: "truthy (getDataValue report_open)"
    by (simp add: report_open_def getDataValue_def index0_def)
  from contact_update [OF a b, of bytesText] c e
  have "safetyPending (handleDataPoint bytesText report_open ?s) = [] \<and>
        getCapabilityValue ''alarm_contact'' (handleDataPoint bytesText report_open ?s) = JBool True"
    by simp
  with a b c d show ?thesis by blast
qed

text \<open>
  C10: a status-code report (data point 12) only sets the status capability to the string
  form of the decoded value; it leaves the contact state, the door button capability and
  every pending timer unchanged. Both drivers run the same code. When the device has no
  status capability nothing changes at all; when the decoded value has no string form
  (\<open>undefined\<close>) no capability changes either.
\<close>

theorem status_report:
  "dp d = 12 \<Longrightarrow>
   handleDataPoint_basic dec d s = handleDataPoint dec d s \<and>
   pending (handleDataPoint dec d s) = pending s \<and>
   delayedTriggerTimer (handleDataPoint dec d s) = delayedTriggerTimer s \<and>
   safetyTimer (handleDataPoint dec d s) = safetyTimer s \<and>
   openAlarmTimer (handleDataPoint dec d s) = openAlarmTimer s \<and>
   settings (handleDataPoint dec d s) = settings s \<and>
   (\<forall>c. c \<noteq> ''garage_Door_State_Capability'' \<longrightarrow>
        caps (handleDataPoint dec d s) c = caps s c) \<and>
   (\<forall>str. hasCapability ''garage_Door_State_Capability'' s \<and>
          toString dec (getDataValue d) = Some str \<longrightarrow>
      handleDataPoint dec d s =
        s\<lparr>caps := (caps s)(''garage_Door_State_Capability'' \<mapsto> JStr str)\<rparr>) \<and>
   (\<not> hasCapability ''garage_Door_State_Capability'' s \<longrightarrow> handleDataPoint dec d s = s)"
  by (auto simp: handleDataPoint_def handleDataPoint_basic_def handleStatus_def
      dataPoints_garageDoorContact_def dataPoints_status_def Let_def hasCapability_def
      setCapabilityValue_def split: option.splits)

theorem status_report_witness:
  "dp \<lparr>dp = 12, dtype = 4, data = [2]\<rparr> = 12 \<and>
   hasCapability ''garage_Door_State_Capability'' (init example_caps Map.empty) \<and>
   toString bytesText (getDataValue \<lparr>dp = 12, dtype = 4, data = [2]\<rparr>) = Some ''2'' \<and>
   handleDataPoint bytesText \<lparr>dp = 12, dtype = 4, data = [2]\<rparr> (init example_caps Map.empty) =
     (init example_caps Map.empty)
       \<lparr>caps := (caps (init example_caps Map.empty))
                  (''garage_Door_State_Capability'' \<mapsto> JStr ''2'')\<rparr>"
proof -
  let ?d = "\<lparr>dp = 12, dtype = 4, data = [2]\<rparr>"
  let ?s = "init example_caps Map.empty"
  have a: "dp ?d = 12" by simp
  have b: "hasCapability ''garage_Door_State_Capability'' ?s"
    by (simp add: hasCapability_def init_def example_caps_def)
  have c: "toString bytesText (getDataValue ?d) = Some ''2''"
    by code_simp
  from status_report [OF a, of bytesText ?s] b c
  have "handleDataPoint bytesText ?d ?s =
          ?s\<lparr>caps := (caps ?s)(''garage_Door_State_Capability'' \<mapsto> JStr ''2'')\<rparr>"
    by blast
  with a b c show ?thesis by blast
qed

section \<open>Sending the pulse\<close>

lemma pulseWrites_frame [simp]:
  "pulseWrites (setCapabilityValue c v s) = pulseWrites s"
  "pulseWrites (homey_clearTimeout ho s) = pulseWrites s"
  "pulseWrites (snd (homey_setTimeout cb ms s)) = pulseWrites s"
  "pulseWrites (startSafetyTimer x s) = pulseWrites s"
  "pulseWrites (dropTimer h s) = pulseWrites s"
  by (simp_all add: pulseWrites_def homey_setTimeout_def startSafetyTimer_def Let_def
      dropTimer_def)

lemma startSafetyTimer_frame [simp]:
  "caps (startSafetyTimer x s) = caps s"
  "settings (startSafetyTimer x s) = settings s"
  "effects (startSafetyTimer x s) = effects s"
  "delayedTriggerTimer (startSafetyTimer x s) = delayedTriggerTimer s"
  "openAlarmTimer (startSafetyTimer x s) = openAlarmTimer s"
  "nextHandle (startSafetyTimer x s) = Suc (nextHandle s)"
  "hasCapability c (startSafetyTimer x s) = hasCapability c s"
  "getCapabilityValue c (startSafetyTimer x s) = getCapabilityValue c s"
  by (simp_all add: startSafetyTimer_def homey_setTimeout_def Let_def hasCapability_def
      getCapabilityValue_def)

lemma kinds_startSafetyTimer:
  assumes "wf_timers s"
  shows "countdownPending (startSafetyTimer x s) = countdownPending s"
    and "retryPending (startSafetyTimer x s) = retryPending s"
    and "openAlarmPending (startSafetyTimer x s) = openAlarmPending s"
  using assms
  by (auto simp: startSafetyTimer_def homey_setTimeout_def Let_def countdownPending_def
      retryPending_def openAlarmPending_def pending_clearTimeout wf_timers_def isSafety_def
      isRetry_def isOpenAlarm_def split: option.splits callback.splits intro!: filter_cong)

lemma kinds_effects [simp]:
  "safetyPending (s\<lparr>effects := x\<rparr>) = safetyPending s"
  "countdownPending (s\<lparr>effects := x\<rparr>) = countdownPending s"
  "openAlarmPending (s\<lparr>effects := x\<rparr>) = openAlarmPending s"
  "retryPending (s\<lparr>effects := x\<rparr>) = retryPending s"
  by (simp_all add: safetyPending_def countdownPending_def openAlarmPending_def retryPending_def)

lemma sendPulse_writes: "pulseWrites (sendPulse e s) = Suc (pulseWrites s)"
  by (simp add: sendPulse_def Let_def pulseWrites_def homey_setTimeout_def startSafetyTimer_def
      split: write_outcome.splits prod.splits)

lemma sendPulse_retry_writes: "pulseWrites (sendPulse_retry x e s) = Suc (pulseWrites s)"
  by (simp add: sendPulse_retry_def Let_def pulseWrites_def homey_setTimeout_def
      startSafetyTimer_def split: write_outcome.splits prod.splits)

lemma sendPulse_basic_writes: "pulseWrites (sendPulse_basic e s) = Suc (pulseWrites s)"
  by (simp add: sendPulse_basic_def Let_def pulseWrites_def homey_setTimeout_def
      startSafetyTimer_def split: prod.splits)

lemma sendPulse_status:
  "hasCapability ''garage_Door_State_Capability'' s \<Longrightarrow>
   getCapabilityValue ''garage_Door_State_Capability'' (sendPulse e s) = JStr ''moving''"
  by (simp add: sendPulse_def Let_def homey_setTimeout_def getCapabilityValue_def
      setCapabilityValue_def hasCapability_def split: write_outcome.splits)

lemma sendPulse_basic_status:
  "hasCapability ''garage_Door_State_Capability'' s \<Longrightarrow>
   getCapabilityValue ''garage_Door_State_Capability'' (sendPulse_basic e s) = JStr ''moving''"
  by (simp add: sendPulse_basic_def Let_def)

text \<open>The first write is acknowledged or times out: the safety timer starts.\<close>

lemma sendPulse_proceeds:
  assumes "wf_timers s"
    and "writeOutcome e = Resolved \<or> (\<exists>m. writeOutcome e = Rejected m \<and> isTimeout m)"
  shows "safetyPending (sendPulse e s) =
           [(nextHandle s, orDefault (parseInt (settings s ''run_time'')) 20 * 1000,
             SafetyCb (getCapabilityValue ''alarm_contact'' s \<noteq> JBool True))]"
    and "retryPending (sendPulse e s) = retryPending s"
    and "countdownPending (sendPulse e s) = countdownPending s"
  using assms
  by (auto simp: sendPulse_def Let_def safetyPending_startSafetyTimer kinds_startSafetyTimer)

lemma sendPulse_basic_proceeds:
  assumes "wf_timers s"
  shows "safetyPending (sendPulse_basic e s) =
           [(nextHandle s, orDefault (parseInt (settings s ''run_time'')) 20 * 1000,
             SafetyCb (getCapabilityValue ''alarm_contact'' s \<noteq> JBool True))]"
    and "retryPending (sendPulse_basic e s) = retryPending s"
    and "countdownPending (sendPulse_basic e s) = countdownPending s"
  using assms
  by (auto simp: sendPulse_basic_def Let_def safetyPending_startSafetyTimer kinds_startSafetyTimer)

text \<open>The first write fails with another error: the retry is scheduled, nothing else.\<close>

lemma sendPulse_schedules_retry:
  "writeOutcome e = Rejected m \<Longrightarrow> \<not> isTimeout m \<Longrightarrow>
   pending (sendPulse e s) =
     pending s @ [(nextHandle s, 500, RetryCb (getCapabilityValue ''alarm_contact'' s \<noteq> JBool True))]"
  by (simp add: sendPulse_def Let_def homey_setTimeout_def)

lemma sendPulse_retry_failed:
  "writeOutcome e = Rejected m \<Longrightarrow>
   pending (sendPulse_retry x e s) = pending s @ [(nextHandle s, 3000, RecoveryCb)] \<and>
   safetyTimer (sendPulse_retry x e s) = safetyTimer s \<and>
   (hasCapability ''garage_Door_State_Capability'' s \<longrightarrow>
      getCapabilityValue ''garage_Door_State_Capability'' (sendPulse_retry x e s) = JStr ''error'')"
  by (simp add: sendPulse_retry_def Let_def homey_setTimeout_def getCapabilityValue_def
      setCapabilityValue_def hasCapability_def)

lemma sendPulse_retry_succeeded:
  "wf_timers s \<Longrightarrow> writeOutcome e = Resolved \<Longrightarrow>
   safetyPending (sendPulse_retry x e s) =
     [(nextHandle s, orDefault (parseInt (settings s ''run_time'')) 20 * 1000, SafetyCb x)]"
  by (simp add: sendPulse_retry_def Let_def safetyPending_startSafetyTimer)

lemma sendPulse_retry_no_retry:
  assumes wf: "wf_timers s"
  shows "retryPending (sendPulse_retry x e s) = retryPending s"
proof (cases "writeOutcome e")
  case Resolved
  with wf show ?thesis by (simp add: sendPulse_retry_def Let_def kinds_startSafetyTimer)
next
  case (Rejected m)
  then show ?thesis
    by (simp add: sendPulse_retry_def Let_def retryPending_def homey_setTimeout_def isRetry_def)
qed


lemma find_fresh:
  "\<forall>t \<in> set xs. fst t \<noteq> h \<Longrightarrow> find (\<lambda>t. fst t = h) (xs @ [(h, ms, cb)]) = Some (h, ms, cb)"
  by (induction xs) auto

lemma filter_fresh:
  "\<forall>t \<in> set xs. fst t \<noteq> h \<Longrightarrow> filter (\<lambda>t. fst t \<noteq> h) (xs @ [(h, ms, cb)]) = xs"
  by (induction xs) auto

lemma wf_fresh: "wf_timers s \<Longrightarrow> \<forall>t \<in> set (pending s). fst t \<noteq> nextHandle s"
  by (auto simp: wf_timers_def)

lemma dropTimer_frame [simp]:
  "caps (dropTimer h s) = caps s"
  "settings (dropTimer h s) = settings s"
  "effects (dropTimer h s) = effects s"
  "delayedTriggerTimer (dropTimer h s) = delayedTriggerTimer s"
  "safetyTimer (dropTimer h s) = safetyTimer s"
  "openAlarmTimer (dropTimer h s) = openAlarmTimer s"
  "nextHandle (dropTimer h s) = nextHandle s"
  "hasCapability c (dropTimer h s) = hasCapability c s"
  "getCapabilityValue c (dropTimer h s) = getCapabilityValue c s"
  by (simp_all add: dropTimer_def hasCapability_def getCapabilityValue_def)

lemma sendPulse_nextHandle: "nextHandle (sendPulse e s) = Suc (nextHandle s)"
  by (simp add: sendPulse_def Let_def homey_setTimeout_def split: write_outcome.splits)

text \<open>The retry timer that \<open>sendPulse\<close> scheduled fires: the continuation runs on the
  state \<open>sendPulse\<close> left, without that timer.\<close>

lemma fire_retry:
  assumes "wf_timers s" and "writeOutcome e1 = Rejected m" and "\<not> isTimeout m"
  shows "fire (nextHandle s) e2 (sendPulse e1 s) =
           sendPulse_retry (getCapabilityValue ''alarm_contact'' s \<noteq> JBool True) e2
             (dropTimer (nextHandle s) (sendPulse e1 s))"
    and "pending (dropTimer (nextHandle s) (sendPulse e1 s)) = pending s"
  using assms
  by (simp_all add: fire_def sendPulse_schedules_retry find_fresh filter_fresh wf_fresh
      dropTimer_def)

lemma pulseWrites_callbacks [simp]:
  "pulseWrites (safetyCallback x e s) = pulseWrites s"
  "pulseWrites (openAlarmCallback e s) = pulseWrites s"
  "pulseWrites (recoveryCallback s) = pulseWrites s"
  by (simp_all add: safetyCallback_def openAlarmCallback_def recoveryCallback_def Let_def
      triggerFlowCard_def pulseWrites_def split: card_outcome.splits)

lemma runCallback_writes: "pulseWrites (runCallback cb e s) \<le> Suc (pulseWrites s)"
  by (cases cb) (simp_all add: sendPulse_writes sendPulse_retry_writes)

lemma fire_writes: "pulseWrites (fire h e s) \<le> Suc (pulseWrites s)"
  using runCallback_writes [of _ e "dropTimer h s"]
  by (simp add: fire_def split: option.splits)

text \<open>
  C3 (as stated): any non-timeout error of the pulse write causes exactly one retry. In
  \<open>drivers/Garage_Door_Opener/device.js\<close> a write that fails with a transport error is
  followed by no retry: the safety timer starts after the one write.
\<close>

theorem pulse_write_basic_no_retry:
  "writeOutcome env_error = Rejected (Some ''MAC no ack'') \<and>
   \<not> isTimeout (Some ''MAC no ack'') \<and>
   pending (sendPulse_basic env_error (init example_caps Map.empty)) =
     [(0, 20000, SafetyCb True)] \<and>
   effects (sendPulse_basic env_error (init example_caps Map.empty)) = [WriteBool 1 True]"
  by (simp add: env_error_def isTimeout_def sendPulse_basic_def startSafetyTimer_def
      homey_setTimeout_def homey_clearTimeout_def init_def example_caps_def hasCapability_def
      setCapabilityValue_def getCapabilityValue_def orDefault_def dataPoints_doorTrigger_def
      Let_def)

text \<open>
  C3 (amended): in the driver with the retry, when the pulse is sent, a first write that
  is acknowledged or that the transport reports as timed out leads to the safety timer
  with one write and no retry; any other error of the first write schedules exactly one
  retry after 500 ms, whose firing runs the continuation \<open>sendPulse_retry\<close>; the
  continuation writes once more, schedules no further retry, starts the safety timer when
  the write is acknowledged, and when the write fails with an error other than a timeout
  it ends the cycle with the recovery timer and no safety timer; from \<open>sendPulse\<close> to
  the end of its retry the pulse is written at most twice. In
  \<open>drivers/Garage_Door_Opener/device.js\<close> the pulse is written once and every outcome
  of the write, error or not, leads to the safety timer. Nothing is said here of a retry
  that the transport reports as timed out: see \<open>sendPulse_retry_failed\<close>.
\<close>

theorem pulse_write_policy:
  "wf_timers s \<Longrightarrow>
   (writeOutcome e = Resolved \<or> (\<exists>m. writeOutcome e = Rejected m \<and> isTimeout m) \<longrightarrow>
      pulseWrites (sendPulse e s) = pulseWrites s + 1 \<and>
      retryPending (sendPulse e s) = retryPending s \<and>
      safetyPending (sendPulse e s) =
        [(nextHandle s, orDefault (parseInt (settings s ''run_time'')) 20 * 1000,
          SafetyCb (getCapabilityValue ''alarm_contact'' s \<noteq> JBool True))]) \<and>
   (\<forall>m. writeOutcome e = Rejected m \<and> \<not> isTimeout m \<longrightarrow>
      pulseWrites (sendPulse e s) = pulseWrites s + 1 \<and>
      pending (sendPulse e s) =
        pending s @
        [(nextHandle s, 500, RetryCb (getCapabilityValue ''alarm_contact'' s \<noteq> JBool True))] \<and>
      fire (nextHandle s) e2 (sendPulse e s) =
        sendPulse_retry (getCapabilityValue ''alarm_contact'' s \<noteq> JBool True) e2
          (dropTimer (nextHandle s) (sendPulse e s))) \<and>
   pulseWrites (sendPulse_retry x e s) = pulseWrites s + 1 \<and>
   retryPending (sendPulse_retry x e s) = retryPending s \<and>
   (writeOutcome e = Resolved \<longrightarrow>
      safetyPending (sendPulse_retry x e s) =
        [(nextHandle s, orDefault (parseInt (settings s ''run_time'')) 20 * 1000, SafetyCb x)]) \<and>
   (\<forall>m. writeOutcome e = Rejected m \<and> \<not> isTimeout m \<longrightarrow>
      pending (sendPulse_retry x e s) = pending s @ [(nextHandle s, 3000, RecoveryCb)] \<and>
      safetyTimer (sendPulse_retry x e s) = safetyTimer s) \<and>
   pulseWrites (fire (nextHandle s) e2 (sendPulse e s)) \<le> pulseWrites s + 2 \<and>
   pulseWrites (sendPulse_basic e s) = pulseWrites s + 1 \<and>
   retryPending (sendPulse_basic e s) = retryPending s \<and>
   safetyPending (sendPulse_basic e s) =
     [(nextHandle s, orDefault (parseInt (settings s ''run_time'')) 20 * 1000,
       SafetyCb (getCapabilityValue ''alarm_contact'' s \<noteq> JBool True))]"
proof -
  assume wf: "wf_timers s"
  have twice: "pulseWrites (fire (nextHandle s) e2 (sendPulse e s)) \<le> pulseWrites s + 2"
    using fire_writes [of "nextHandle s" e2 "sendPulse e s"] by (simp add: sendPulse_writes)
  show ?thesis
    using wf twice
    by (simp add: sendPulse_writes sendPulse_retry_writes sendPulse_basic_writes
        sendPulse_proceeds sendPulse_basic_proceeds sendPulse_schedules_retry fire_retry
        sendPulse_retry_no_retry sendPulse_retry_succeeded sendPulse_retry_failed)
qed


theorem pulse_write_policy_witness:
  "wf_timers (init example_caps Map.empty) \<and>
   writeOutcome env_error = Rejected (Some ''MAC no ack'') \<and>
   \<not> isTimeout (Some ''MAC no ack'') \<and>
   writeOutcome env_timeout = Rejected (Some ''Timeout: Expected Response'') \<and>
   isTimeout (Some ''Timeout: Expected Response'') \<and>
   pending (sendPulse env_error (init example_caps Map.empty)) = [(0, 500, RetryCb True)] \<and>
   safetyPending (sendPulse env_timeout (init example_caps Map.empty)) =
     [(0, 20000, SafetyCb True)]"
proof -
  let ?s = "init example_caps Map.empty"
  have a: "wf_timers ?s" by (rule wf_init)
  have b: "writeOutcome env_error = Rejected (Some ''MAC no ack'')"
    by (simp add: env_error_def)
  have c: "\<not> isTimeout (Some ''MAC no ack'')" by (simp add: isTimeout_def)
  have b': "writeOutcome env_timeout = Rejected (Some ''Timeout: Expected Response'')"
    by (simp add: env_timeout_def)
  have c': "isTimeout (Some ''Timeout: Expected Response'')" by (simp add: isTimeout_def)
  have v: "nextHandle ?s = 0" "pending ?s = []" "settings ?s ''run_time'' = None"
    "getCapabilityValue ''alarm_contact'' ?s = JBool False"
    by (simp_all add: init_def example_caps_def getCapabilityValue_def)
  from pulse_write_policy [OF a, of env_error] b c v
  have d: "pending (sendPulse env_error ?s) = [(0, 500, RetryCb True)]"
    by simp
  from pulse_write_policy [OF a, of env_timeout] b' c' v
  have e: "safetyPending (sendPulse env_timeout ?s) = [(0, 20000, SafetyCb True)]"
    by (simp add: orDefault_def)
  from a b c b' c' d e show ?thesis by blast
qed

text \<open>The recovery timer fires: the status is derived from the contact value of that
  moment.\<close>

lemma fire_recovery:
  "find (\<lambda>u. fst u = h) (pending t) = Some (h, ms, RecoveryCb) \<Longrightarrow>
   fire h e t =
     setCapabilityValue ''garage_Door_State_Capability''
       (JStr (if truthy (getCapabilityValue ''alarm_contact'' t) then ''open'' else ''closed''))
       (dropTimer h t)"
  by (simp add: fire_def recoveryCallback_def Let_def)

text \<open>
  C7: when the pulse write fails with a non-timeout error and the single retry also
  fails, the status is set to Error (the value \<open>'error'\<close>) at once, the only timer
  added is the recovery timer of 3000 ms, so no safety timer is started for that cycle,
  and when the recovery timer fires the status is derived from the contact value at that
  moment: Open if it reads open, Closed otherwise.
\<close>

theorem retry_exhausted:
  "wf_timers s \<Longrightarrow> writeOutcome e1 = Rejected m1 \<Longrightarrow> \<not> isTimeout m1 \<Longrightarrow>
   writeOutcome e2 = Rejected m2 \<Longrightarrow>
   (hasCapability ''garage_Door_State_Capability'' s \<longrightarrow>
      getCapabilityValue ''garage_Door_State_Capability''
        (fire (nextHandle s) e2 (sendPulse e1 s)) = JStr ''error'') \<and>
   pending (fire (nextHandle s) e2 (sendPulse e1 s)) =
     pending s @ [(Suc (nextHandle s), 3000, RecoveryCb)] \<and>
   safetyTimer (fire (nextHandle s) e2 (sendPulse e1 s)) = safetyTimer s \<and>
   pulseWrites (fire (nextHandle s) e2 (sendPulse e1 s)) = pulseWrites s + 2 \<and>
   (\<forall>t h ms e3. find (\<lambda>u. fst u = h) (pending t) = Some (h, ms, RecoveryCb) \<longrightarrow>
      fire h e3 t =
        setCapabilityValue ''garage_Door_State_Capability''
          (JStr (if truthy (getCapabilityValue ''alarm_contact'' t) then ''open'' else ''closed''))
          (dropTimer h t))"
proof -
  assume wf: "wf_timers s" and r1: "writeOutcome e1 = Rejected m1" and nt: "\<not> isTimeout m1"
    and r2: "writeOutcome e2 = Rejected m2"
  let ?x = "getCapabilityValue ''alarm_contact'' s \<noteq> JBool True"
  let ?d = "dropTimer (nextHandle s) (sendPulse e1 s)"
  have f: "fire (nextHandle s) e2 (sendPulse e1 s) = sendPulse_retry ?x e2 ?d"
    and p: "pending ?d = pending s"
    using fire_retry [OF wf r1 nt] by simp_all
  have cap: "hasCapability ''garage_Door_State_Capability'' (sendPulse e1 s) =
               hasCapability ''garage_Door_State_Capability'' s"
    by (simp add: sendPulse_def Let_def homey_setTimeout_def hasCapability_def
        setCapabilityValue_def r1 nt)
  have st: "safetyTimer (sendPulse e1 s) = safetyTimer s"
    by (simp add: sendPulse_def Let_def homey_setTimeout_def r1 nt)
  show ?thesis
    using sendPulse_retry_failed [OF r2, of ?x ?d]
    by (simp add: f p cap st sendPulse_writes sendPulse_nextHandle sendPulse_retry_writes
        fire_recovery)
qed

theorem retry_exhausted_witness:
  "wf_timers (init example_caps Map.empty) \<and>
   writeOutcome env_error = Rejected (Some ''MAC no ack'') \<and>
   \<not> isTimeout (Some ''MAC no ack'') \<and>
   hasCapability ''garage_Door_State_Capability'' (init example_caps Map.empty) \<and>
   getCapabilityValue ''garage_Door_State_Capability''
     (fire 0 env_error (sendPulse env_error (init example_caps Map.empty))) = JStr ''error'' \<and>
   pending (fire 0 env_error (sendPulse env_error (init example_caps Map.empty))) =
     [(1, 3000, RecoveryCb)] \<and>
   getCapabilityValue ''garage_Door_State_Capability''
     (fire 1 env_ok (fire 0 env_error (sendPulse env_error (init example_caps Map.empty)))) =
     JStr ''closed''"
proof -
  let ?s = "init example_caps Map.empty"
  let ?s2 = "fire 0 env_error (sendPulse env_error ?s)"
  have a: "wf_timers ?s" by (rule wf_init)
  have b: "writeOutcome env_error = Rejected (Some ''MAC no ack'')"
    by (simp add: env_error_def)
  have c: "\<not> isTimeout (Some ''MAC no ack'')" by (simp add: isTimeout_def)
  have h: "hasCapability ''garage_Door_State_Capability'' ?s"
    by (simp add: hasCapability_def init_def example_caps_def)
  have v: "nextHandle ?s = 0" "pending ?s = []"
    by (simp_all add: init_def)
  note r = retry_exhausted [OF a b c b]
  from r h v have d: "getCapabilityValue ''garage_Door_State_Capability'' ?s2 = JStr ''error''"
    by simp
  from r v have p: "pending ?s2 = [(1, 3000, RecoveryCb)]"
    by simp
  have k: "getCapabilityValue ''alarm_contact'' ?s2 = JBool False"
    "hasCapability ''garage_Door_State_Capability'' ?s2"
    by (simp_all add: fire_def sendPulse_def sendPulse_retry_def env_error_def isTimeout_def
        homey_setTimeout_def dropTimer_def init_def example_caps_def hasCapability_def
        setCapabilityValue_def getCapabilityValue_def Let_def)
  from r p have "fire 1 env_ok ?s2 =
      setCapabilityValue ''garage_Door_State_Capability''
        (JStr (if truthy (getCapabilityValue ''alarm_contact'' ?s2) then ''open'' else ''closed''))
        (dropTimer 1 ?s2)"
    by simp
  with k have e: "getCapabilityValue ''garage_Door_State_Capability'' (fire 1 env_ok ?s2) =
      JStr ''closed''"
    by simp
  from a b c h d p e show ?thesis by blast
qed

section \<open>Trigger requests\<close>

lemma kind_simps [simp]:
  "isSafety SendPulseCb = False" "isSafety (SafetyCb x) = True" "isSafety (OpenAlarmCb n) = False"
  "isSafety (RetryCb x) = False" "isSafety RecoveryCb = False"
  "isOpenAlarm SendPulseCb = False" "isOpenAlarm (SafetyCb x) = False"
  "isOpenAlarm (OpenAlarmCb n) = True" "isOpenAlarm (RetryCb x) = False"
  "isOpenAlarm RecoveryCb = False"
  "isRetry SendPulseCb = False" "isRetry (SafetyCb x) = False" "isRetry (OpenAlarmCb n) = False"
  "isRetry (RetryCb x) = True" "isRetry RecoveryCb = False"
  by (simp_all add: isSafety_def isOpenAlarm_def isRetry_def)

lemma filter_keeps_fresh:
  "\<forall>t \<in> set xs. fst t \<noteq> h \<Longrightarrow> filter (\<lambda>t. fst t \<noteq> h) xs = xs"
  by (induction xs) auto

lemma wf_clear2:
  "wf_timers s \<Longrightarrow>
   wf_timers (homey_clearTimeout (safetyTimer s) (homey_clearTimeout (delayedTriggerTimer s) s))"
  by (simp add: wf_clearTimeout)

lemma triggerDoorPulse_immediate:
  "orDefault (parseInt (settings s ''count_down'')) 0 \<le> 0 \<Longrightarrow>
   triggerDoorPulse e s =
     sendPulse e (homey_clearTimeout (safetyTimer s) (homey_clearTimeout (delayedTriggerTimer s) s)) \<and>
   triggerDoorPulse_basic e s =
     sendPulse_basic e
       (homey_clearTimeout (safetyTimer s) (homey_clearTimeout (delayedTriggerTimer s) s))"
  by (simp add: triggerDoorPulse_def triggerDoorPulse_basic_def Let_def)

lemma triggerDoorPulse_basic_countdown:
  "0 < orDefault (parseInt (settings s ''count_down'')) 0 \<Longrightarrow>
   triggerDoorPulse_basic e s = triggerDoorPulse e s"
  by (simp add: triggerDoorPulse_def triggerDoorPulse_basic_def Let_def)

lemma triggerDoorPulse_countdown:
  assumes "0 < orDefault (parseInt (settings s ''count_down'')) 0"
  shows "pending (triggerDoorPulse e s) =
           pending (homey_clearTimeout (safetyTimer s) (homey_clearTimeout (delayedTriggerTimer s) s))
           @ [(nextHandle s, orDefault (parseInt (settings s ''count_down'')) 0 * 1000, SendPulseCb)]"
    and "effects (triggerDoorPulse e s) = effects s"
    and "nextHandle (triggerDoorPulse e s) = Suc (nextHandle s)"
    and "hasCapability ''garage_Door_State_Capability'' s \<Longrightarrow>
         getCapabilityValue ''garage_Door_State_Capability'' (triggerDoorPulse e s) = JStr ''2''"
  using assms
  by (simp_all add: triggerDoorPulse_def Let_def homey_setTimeout_def getCapabilityValue_def
      hasCapability_def setCapabilityValue_def split: prod.splits)

lemma triggerDoorPulse_countdown_kinds:
  assumes wf: "wf_timers s" and c: "0 < orDefault (parseInt (settings s ''count_down'')) 0"
  shows "countdownPending (triggerDoorPulse e s) =
           [(nextHandle s, orDefault (parseInt (settings s ''count_down'')) 0 * 1000, SendPulseCb)]"
    and "safetyPending (triggerDoorPulse e s) = []"
proof -
  let ?c2 = "homey_clearTimeout (safetyTimer s) (homey_clearTimeout (delayedTriggerTimer s) s)"
  have a: "filter (\<lambda>t. snd (snd t) = SendPulseCb) (pending ?c2) = []"
    using clear_both(4) [OF wf] by (simp add: countdownPending_def)
  have b: "filter (\<lambda>t. isSafety (snd (snd t))) (pending ?c2) = []"
    using clear_both(3) [OF wf] by (simp add: safetyPending_def)
  show "countdownPending (triggerDoorPulse e s) =
           [(nextHandle s, orDefault (parseInt (settings s ''count_down'')) 0 * 1000, SendPulseCb)]"
    by (simp add: countdownPending_def triggerDoorPulse_countdown(1) [OF c] a)
  show "safetyPending (triggerDoorPulse e s) = []"
    by (simp add: safetyPending_def triggerDoorPulse_countdown(1) [OF c] b)
qed

lemma fresh_clear2:
  "wf_timers s \<Longrightarrow>
   \<forall>t \<in> set (pending (homey_clearTimeout (safetyTimer s)
                  (homey_clearTimeout (delayedTriggerTimer s) s))). fst t \<noteq> nextHandle s"
  using wf_fresh [OF wf_clear2, of s] by simp

text \<open>The countdown timer fires: the pulse sender runs on the state without it, where no
  countdown and no safety timer is pending.\<close>

lemma fire_countdown:
  assumes wf: "wf_timers s" and c: "0 < orDefault (parseInt (settings s ''count_down'')) 0"
  shows "fire (nextHandle s) e' (triggerDoorPulse e s) =
           sendPulse e' (dropTimer (nextHandle s) (triggerDoorPulse e s))"
    and "fire_basic (nextHandle s) e' (triggerDoorPulse e s) =
           sendPulse_basic e' (dropTimer (nextHandle s) (triggerDoorPulse e s))"
    and "countdownPending (dropTimer (nextHandle s) (triggerDoorPulse e s)) = []"
    and "safetyPending (dropTimer (nextHandle s) (triggerDoorPulse e s)) = []"
proof -
  let ?c2 = "homey_clearTimeout (safetyTimer s) (homey_clearTimeout (delayedTriggerTimer s) s)"
  note p = triggerDoorPulse_countdown(1) [OF c, of e]
  note fr = fresh_clear2 [OF wf]
  show "fire (nextHandle s) e' (triggerDoorPulse e s) =
           sendPulse e' (dropTimer (nextHandle s) (triggerDoorPulse e s))"
    by (simp add: fire_def p find_fresh [OF fr])
  show "fire_basic (nextHandle s) e' (triggerDoorPulse e s) =
           sendPulse_basic e' (dropTimer (nextHandle s) (triggerDoorPulse e s))"
    by (simp add: fire_basic_def p find_fresh [OF fr])
  have d: "pending (dropTimer (nextHandle s) (triggerDoorPulse e s)) = pending ?c2"
    by (simp add: dropTimer_def p filter_keeps_fresh [OF fr])
  show "countdownPending (dropTimer (nextHandle s) (triggerDoorPulse e s)) = []"
    using clear_both(4) [OF wf] by (simp add: countdownPending_def d)
  show "safetyPending (dropTimer (nextHandle s) (triggerDoorPulse e s)) = []"
    using clear_both(3) [OF wf] by (simp add: safetyPending_def d)
qed

text \<open>
  A trigger request in a state that keeps the timer discipline, handled as one step:
  \<open>triggerDoorPulse\<close> first cancels the pending countdown and safety timers. If the
  configured countdown (\<open>parseInt(count_down) || 0\<close>) is 0 or less it sends the pulse at
  once, on the state where neither kind is pending. Otherwise it sends nothing, sets the
  status to CountdownActive (the value \<open>'2'\<close>) and schedules the countdown timer for
  that many seconds, the only countdown timer then pending and with no safety timer; when
  it fires, the same pulse sender runs, again on a state where neither kind is pending.
  The pulse sender sets the status to Moving and hands the negation of the current
  contact value (of \<open>alarm_contact === true\<close>) to the safety timer, or to the retry, as
  the expected end state. Both drivers do.
\<close>

theorem trigger_request:
  "wf_timers s \<Longrightarrow>
   (orDefault (parseInt (settings s ''count_down'')) 0 \<le> 0 \<longrightarrow>
      triggerDoorPulse e s =
        sendPulse e
          (homey_clearTimeout (safetyTimer s) (homey_clearTimeout (delayedTriggerTimer s) s)) \<and>
      triggerDoorPulse_basic e s =
        sendPulse_basic e
          (homey_clearTimeout (safetyTimer s) (homey_clearTimeout (delayedTriggerTimer s) s)) \<and>
      countdownPending
        (homey_clearTimeout (safetyTimer s) (homey_clearTimeout (delayedTriggerTimer s) s)) = [] \<and>
      safetyPending
        (homey_clearTimeout (safetyTimer s) (homey_clearTimeout (delayedTriggerTimer s) s)) = [] \<and>
      pulseWrites (triggerDoorPulse e s) = pulseWrites s + 1 \<and>
      pulseWrites (triggerDoorPulse_basic e s) = pulseWrites s + 1 \<and>
      countdownPending (triggerDoorPulse e s) = [] \<and>
      countdownPending (triggerDoorPulse_basic e s) = []) \<and>
   (0 < orDefault (parseInt (settings s ''count_down'')) 0 \<longrightarrow>
      triggerDoorPulse_basic e s = triggerDoorPulse e s \<and>
      effects (triggerDoorPulse e s) = effects s \<and>
      (hasCapability ''garage_Door_State_Capability'' s \<longrightarrow>
         getCapabilityValue ''garage_Door_State_Capability'' (triggerDoorPulse e s) = JStr ''2'') \<and>
      countdownPending (triggerDoorPulse e s) =
        [(nextHandle s, orDefault (parseInt (settings s ''count_down'')) 0 * 1000, SendPulseCb)] \<and>
      safetyPending (triggerDoorPulse e s) = [] \<and>
      fire (nextHandle s) e' (triggerDoorPulse e s) =
        sendPulse e' (dropTimer (nextHandle s) (triggerDoorPulse e s)) \<and>
      fire_basic (nextHandle s) e' (triggerDoorPulse e s) =
        sendPulse_basic e' (dropTimer (nextHandle s) (triggerDoorPulse e s)) \<and>
      countdownPending (dropTimer (nextHandle s) (triggerDoorPulse e s)) = [] \<and>
      safetyPending (dropTimer (nextHandle s) (triggerDoorPulse e s)) = []) \<and>
   (hasCapability ''garage_Door_State_Capability'' s \<longrightarrow>
      getCapabilityValue ''garage_Door_State_Capability'' (sendPulse e s) = JStr ''moving'' \<and>
      getCapabilityValue ''garage_Door_State_Capability'' (sendPulse_basic e s) = JStr ''moving'') \<and>
   (writeOutcome e = Resolved \<or> (\<exists>m. writeOutcome e = Rejected m \<and> isTimeout m) \<longrightarrow>
      safetyPending (sendPulse e s) =
        [(nextHandle s, orDefault (parseInt (settings s ''run_time'')) 20 * 1000,
          SafetyCb (getCapabilityValue ''alarm_contact'' s \<noteq> JBool True))]) \<and>
   (\<forall>m. writeOutcome e = Rejected m \<and> \<not> isTimeout m \<longrightarrow>
      pending (sendPulse e s) =
        pending s @
        [(nextHandle s, 500, RetryCb (getCapabilityValue ''alarm_contact'' s \<noteq> JBool True))]) \<and>
   safetyPending (sendPulse_basic e s) =
     [(nextHandle s, orDefault (parseInt (settings s ''run_time'')) 20 * 1000,
       SafetyCb (getCapabilityValue ''alarm_contact'' s \<noteq> JBool True))]"
proof -
  assume wf: "wf_timers s"
  let ?c2 = "homey_clearTimeout (safetyTimer s) (homey_clearTimeout (delayedTriggerTimer s) s)"
  have wf2: "wf_timers ?c2" using wf by (rule wf_clear2)
  have z: "countdownPending (sendPulse e ?c2) = []"
  proof (cases "writeOutcome e = Resolved \<or> (\<exists>m. writeOutcome e = Rejected m \<and> isTimeout m)")
    case True
    then show ?thesis using sendPulse_proceeds(3) [OF wf2] clear_both(4) [OF wf] by simp
  next
    case False
    then obtain m where "writeOutcome e = Rejected m" "\<not> isTimeout m"
      by (cases "writeOutcome e") auto
    then show ?thesis
      using clear_both(4) [OF wf]
      by (simp add: countdownPending_def sendPulse_schedules_retry)
  qed
  have zb: "countdownPending (sendPulse_basic e ?c2) = []"
    using sendPulse_basic_proceeds(3) [OF wf2] clear_both(4) [OF wf] by simp
  show ?thesis
    using wf z zb
    by (simp add: triggerDoorPulse_immediate triggerDoorPulse_basic_countdown
        triggerDoorPulse_countdown triggerDoorPulse_countdown_kinds fire_countdown clear_both
        sendPulse_writes sendPulse_basic_writes sendPulse_status sendPulse_basic_status
        sendPulse_proceeds sendPulse_basic_proceeds sendPulse_schedules_retry)
qed


theorem trigger_request_witness:
  "wf_timers (init example_caps [''count_down'' \<mapsto> SNum 5]) \<and>
   0 < orDefault (parseInt (settings (init example_caps [''count_down'' \<mapsto> SNum 5]) ''count_down'')) 0 \<and>
   hasCapability ''garage_Door_State_Capability'' (init example_caps [''count_down'' \<mapsto> SNum 5]) \<and>
   countdownPending (triggerDoorPulse env_ok (init example_caps [''count_down'' \<mapsto> SNum 5])) =
     [(0, 5000, SendPulseCb)] \<and>
   getCapabilityValue ''garage_Door_State_Capability''
     (triggerDoorPulse env_ok (init example_caps [''count_down'' \<mapsto> SNum 5])) = JStr ''2'' \<and>
   wf_timers (init example_caps Map.empty) \<and>
   orDefault (parseInt (settings (init example_caps Map.empty) ''count_down'')) 0 \<le> 0 \<and>
   writeOutcome env_ok = Resolved \<and>
   pulseWrites (triggerDoorPulse env_ok (init example_caps Map.empty)) = 1 \<and>
   safetyPending (sendPulse env_ok (init example_caps Map.empty)) = [(0, 20000, SafetyCb True)]"
proof -
  let ?s5 = "init example_caps [''count_down'' \<mapsto> SNum 5]"
  let ?s0 = "init example_caps Map.empty"
  have a: "wf_timers ?s5" by (rule wf_init)
  have b: "orDefault (parseInt (settings ?s5 ''count_down'')) 0 = 5"
    by (simp add: init_def orDefault_def)
  have c: "hasCapability ''garage_Door_State_Capability'' ?s5"
    by (simp add: hasCapability_def init_def example_caps_def)
  have n: "nextHandle ?s5 = 0" by (simp add: init_def)
  from trigger_request [OF a, of env_ok] b c n
  have d: "countdownPending (triggerDoorPulse env_ok ?s5) = [(0, 5000, SendPulseCb)] \<and>
           getCapabilityValue ''garage_Door_State_Capability'' (triggerDoorPulse env_ok ?s5) = JStr ''2''"
    by simp
  have a0: "wf_timers ?s0" by (rule wf_init)
  have b0: "orDefault (parseInt (settings ?s0 ''count_down'')) 0 \<le> 0"
    by (simp add: init_def orDefault_def)
  have r: "writeOutcome env_ok = Resolved" by (simp add: env_ok_def)
  have v: "nextHandle ?s0 = 0" "pulseWrites ?s0 = 0"
    "orDefault (parseInt (settings ?s0 ''run_time'')) 20 = 20"
    "getCapabilityValue ''alarm_contact'' ?s0 = JBool False"
    by (simp_all add: init_def pulseWrites_def example_caps_def getCapabilityValue_def
        orDefault_def)
  note t0 = trigger_request [OF a0, of env_ok]
  from t0 b0 have "pulseWrites (triggerDoorPulse env_ok ?s0) = pulseWrites ?s0 + 1"
    by blast
  then have e1: "pulseWrites (triggerDoorPulse env_ok ?s0) = 1"
    by (simp add: v)
  from t0 r have "safetyPending (sendPulse env_ok ?s0) =
        [(nextHandle ?s0, orDefault (parseInt (settings ?s0 ''run_time'')) 20 * 1000,
          SafetyCb (getCapabilityValue ''alarm_contact'' ?s0 \<noteq> JBool True))]"
    by blast
  then have e2: "safetyPending (sendPulse env_ok ?s0) = [(0, 20000, SafetyCb True)]"
    by (simp add: v)
  from a b c d a0 b0 r e1 e2 show ?thesis by simp
qed

section \<open>The open-time alarm\<close>

lemma openAlarmPending_startOpenAlarmTimer:
  "wf_timers s \<Longrightarrow>
   openAlarmPending (startOpenAlarmTimer s) =
     (if 0 < orDefault (parseInt (settings s ''open_alarm_time'')) 0
      then [(nextHandle s, orDefault (parseInt (settings s ''open_alarm_time'')) 0 * 1000,
             OpenAlarmCb (orDefault (parseInt (settings s ''open_alarm_time'')) 0))]
      else [])"
  by (auto simp: startOpenAlarmTimer_def homey_setTimeout_def Let_def openAlarmPending_def
      pending_clearTimeout wf_timers_def filter_empty_conv split: option.splits)

lemma openAlarmPending_stopOpenAlarmTimer:
  "wf_timers s \<Longrightarrow> openAlarmPending (stopOpenAlarmTimer s) = []"
  by (auto simp: stopOpenAlarmTimer_def openAlarmPending_def pending_clearTimeout wf_timers_def
      filter_empty_conv split: option.splits)

lemma openAlarmPending_contact_update:
  assumes "dp d = 3" and wf: "wf_timers s"
  shows "openAlarmPending (handleDataPoint dec d s) =
     (if truthy (getDataValue d) \<and> 0 < orDefault (parseInt (settings s ''open_alarm_time'')) 0
      then [(nextHandle s, orDefault (parseInt (settings s ''open_alarm_time'')) 0 * 1000,
             OpenAlarmCb (orDefault (parseInt (settings s ''open_alarm_time'')) 0))]
      else [])"
proof -
  let ?c2 = "homey_clearTimeout (delayedTriggerTimer s) (homey_clearTimeout (safetyTimer s) s)"
  have wf2: "wf_timers ?c2" using wf by (simp add: wf_clearTimeout)
  show ?thesis
    using assms(1) wf2
    by (simp add: handleDataPoint_def dataPoints_garageDoorContact_def Let_def
        openAlarmPending_startOpenAlarmTimer openAlarmPending_stopOpenAlarmTimer)
qed


lemma openAlarmPending_updates [simp]:
  "openAlarmPending (dropTimer h s) = filter (\<lambda>t. fst t \<noteq> h) (openAlarmPending s)"
  "openAlarmPending (triggerFlowCard n c s) = openAlarmPending s"
  by (auto simp: openAlarmPending_def dropTimer_def triggerFlowCard_def
      split: card_outcome.splits intro: filter_cong)

lemma openAlarmPending_clear_other:
  assumes "wf_timers s"
  shows "openAlarmPending (homey_clearTimeout (safetyTimer s) s) = openAlarmPending s"
    and "openAlarmPending (homey_clearTimeout (delayedTriggerTimer s) s) = openAlarmPending s"
  using assms
  by (auto simp: openAlarmPending_def pending_clearTimeout wf_timers_def isSafety_def
      isOpenAlarm_def split: option.splits callback.splits intro!: filter_cong)

lemma openAlarmPending_setTimeout:
  "\<not> isOpenAlarm cb \<Longrightarrow> openAlarmPending (snd (homey_setTimeout cb ms s)) = openAlarmPending s"
  by (simp add: openAlarmPending_def homey_setTimeout_def)

lemma openAlarmPending_sendPulse:
  "wf_timers s \<Longrightarrow> openAlarmPending (sendPulse e s) = openAlarmPending s"
  by (simp add: sendPulse_def Let_def kinds_startSafetyTimer openAlarmPending_setTimeout
      split: write_outcome.splits)

lemma openAlarmPending_sendPulse_retry:
  "wf_timers s \<Longrightarrow> openAlarmPending (sendPulse_retry x e s) = openAlarmPending s"
  by (simp add: sendPulse_retry_def Let_def kinds_startSafetyTimer openAlarmPending_setTimeout
      split: write_outcome.splits)

lemma openAlarmPending_triggerDoorPulse:
  assumes wf: "wf_timers s"
  shows "openAlarmPending (triggerDoorPulse e s) = openAlarmPending s"
proof -
  let ?c1 = "homey_clearTimeout (delayedTriggerTimer s) s"
  let ?c2 = "homey_clearTimeout (safetyTimer ?c1) ?c1"
  have wf1: "wf_timers ?c1" using wf by (rule wf_clearTimeout)
  have wf2: "wf_timers ?c2" using wf1 by (rule wf_clearTimeout)
  have k: "openAlarmPending ?c2 = openAlarmPending s"
    using openAlarmPending_clear_other(1) [OF wf1] openAlarmPending_clear_other(2) [OF wf]
    by simp
  show ?thesis
  proof (cases "orDefault (parseInt (settings s ''count_down'')) 0 \<le> 0")
    case True
    then show ?thesis
      using openAlarmPending_sendPulse [OF wf2, of e] k
      by (simp add: triggerDoorPulse_def Let_def)
  next
    case False
    then show ?thesis
      using k
      by (simp add: triggerDoorPulse_def Let_def openAlarmPending_def homey_setTimeout_def
          split: prod.splits)
  qed
qed

lemma openAlarmPending_callbacks:
  "wf_timers s \<Longrightarrow> openAlarmPending (runCallback cb e s) = openAlarmPending s"
  by (cases cb)
    (simp_all add: openAlarmPending_sendPulse openAlarmPending_sendPulse_retry
      safetyCallback_def openAlarmCallback_def recoveryCallback_def Let_def)

lemma find_Some_fst:
  "find (\<lambda>t. fst t = h) xs = Some t \<Longrightarrow> t \<in> set xs \<and> fst t = h"
  by (induction xs) (auto split: if_splits)

lemma wf_openAlarm_handle:
  "wf_timers s \<Longrightarrow> t \<in> set (pending s) \<Longrightarrow>
   (openAlarmTimer s = Some (fst t)) = isOpenAlarm (snd (snd t))"
  by (simp add: wf_timers_def)

text \<open>A timer fires. If it is the open-time alarm, none is pending afterwards; any other
  timer leaves the open-time alarm as it was.\<close>

lemma openAlarmPending_fire:
  assumes wf: "wf_timers s" and f: "find (\<lambda>t. fst t = h) (pending s) = Some t"
  shows "isOpenAlarm (snd (snd t)) \<Longrightarrow> openAlarmPending (fire h e s) = []"
    and "\<not> isOpenAlarm (snd (snd t)) \<Longrightarrow> openAlarmPending (fire h e s) = openAlarmPending s"
proof -
  have t: "t \<in> set (pending s)" "fst t = h" using find_Some_fst [OF f] by simp_all
  have wfd: "wf_timers (dropTimer h s)" using wf by (rule wf_dropTimer)
  have eq: "openAlarmPending (fire h e s) = filter (\<lambda>t. fst t \<noteq> h) (openAlarmPending s)"
    using f by (simp add: fire_def openAlarmPending_callbacks [OF wfd])
  show "openAlarmPending (fire h e s) = []" if oa: "isOpenAlarm (snd (snd t))"
  proof -
    have ht: "openAlarmTimer s = Some h"
      using wf_openAlarm_handle [OF wf t(1)] oa t(2) by simp
    have "fst u = h" if "u \<in> set (openAlarmPending s)" for u
      using wf_openAlarm_handle [OF wf, of u] that ht by (simp add: openAlarmPending_def)
    then show ?thesis by (auto simp: eq filter_empty_conv)
  qed
  show "openAlarmPending (fire h e s) = openAlarmPending s" if no: "\<not> isOpenAlarm (snd (snd t))"
  proof -
    have ht: "openAlarmTimer s \<noteq> Some h"
      using wf_openAlarm_handle [OF wf t(1)] no t(2) by simp
    have "fst u \<noteq> h" if "u \<in> set (openAlarmPending s)" for u
      using wf_openAlarm_handle [OF wf, of u] that ht by (auto simp: openAlarmPending_def)
    then show ?thesis by (simp add: eq)
  qed
qed

lemma openAlarmPending_other_report:
  "dp d \<noteq> 3 \<Longrightarrow> openAlarmPending (handleDataPoint dec d s) = openAlarmPending s"
  by (simp add: handleDataPoint_def dataPoints_garageDoorContact_def handleStatus_def Let_def
      openAlarmPending_def split: option.splits)

lemma settings_sendPulse [simp]:
  "settings (sendPulse e s) = settings s"
  "settings (sendPulse_retry x e s) = settings s"
  by (simp_all add: sendPulse_def sendPulse_retry_def Let_def homey_setTimeout_def
      split: write_outcome.splits)

lemma settings_callbacks [simp]: "settings (runCallback cb e s) = settings s"
  by (cases cb)
    (simp_all add: safetyCallback_def openAlarmCallback_def recoveryCallback_def Let_def
      triggerFlowCard_def split: card_outcome.splits)

lemma settings_step: "settings (step dec ev s) = settings s"
proof (cases ev)
  case (Trigger e)
  then show ?thesis
    by (simp add: triggerDoorPulse_def Let_def homey_setTimeout_def split: prod.splits)
next
  case (DataPoint d)
  then show ?thesis
    by (simp add: handleDataPoint_def handleStatus_def stopOpenAlarmTimer_def Let_def
        split: option.splits)
next
  case (Fire h e)
  then show ?thesis by (simp add: fire_def split: option.splits)
qed

lemma openAlarm_disabled_step:
  assumes wf: "wf_timers s"
    and off: "orDefault (parseInt (settings s ''open_alarm_time'')) 0 \<le> 0"
    and none: "openAlarmPending s = []"
  shows "openAlarmPending (step dec ev s) = []"
proof (cases ev)
  case (Trigger e)
  then show ?thesis using none by (simp add: openAlarmPending_triggerDoorPulse [OF wf])
next
  case (DataPoint d)
  then show ?thesis
    using none off openAlarmPending_contact_update [OF _ wf, of d dec]
      openAlarmPending_other_report [of d dec s]
    by (cases "dp d = 3") simp_all
next
  case (Fire h e)
  show ?thesis
  proof (cases "find (\<lambda>t. fst t = h) (pending s)")
    case None
    then show ?thesis using Fire none by (simp add: fire_def)
  next
    case (Some t)
    have "t \<in> set (pending s)" using find_Some_fst [OF Some] by simp
    then have "\<not> isOpenAlarm (snd (snd t))"
      using none by (auto simp: openAlarmPending_def filter_empty_conv)
    then show ?thesis
      using Fire none openAlarmPending_fire(2) [OF wf Some] by simp
  qed
qed

lemma openAlarm_disabled_run:
  "wf_timers s \<Longrightarrow> orDefault (parseInt (settings s ''open_alarm_time'')) 0 \<le> 0 \<Longrightarrow>
   openAlarmPending s = [] \<Longrightarrow> openAlarmPending (run dec evs s) = []"
proof (induction evs arbitrary: s)
  case Nil
  then show ?case by simp
next
  case (Cons ev evs)
  have "openAlarmPending (run dec evs (step dec ev s)) = []"
  proof (rule Cons.IH)
    show "wf_timers (step dec ev s)" using Cons.prems(1) by (rule wf_step)
    show "orDefault (parseInt (settings (step dec ev s) ''open_alarm_time'')) 0 \<le> 0"
      using Cons.prems(2) by (simp add: settings_step)
    show "openAlarmPending (step dec ev s) = []"
      using Cons.prems by (rule openAlarm_disabled_step)
  qed
  then show ?case by simp
qed

text \<open>
  C6 (as stated): the open-time alarm timer is pending iff the last contact update
  reported the door open and the configured time is strictly positive. The timer fires
  once: with 30 seconds configured, after an update to open and the firing of the timer no
  open-time alarm timer is pending, while the last update reported open and the contact
  still reads open.
\<close>

theorem open_alarm_one_shot:
  "report_open = \<lparr>dp = 3, dtype = 1, data = [1]\<rparr> \<and>
   truthy (getDataValue report_open) \<and>
   parseInt (settings (init example_caps [''open_alarm_time'' \<mapsto> SNum 30]) ''open_alarm_time'')
     = Some 30 \<and>
   openAlarmPending
     (run bytesText [DataPoint report_open]
        (init example_caps [''open_alarm_time'' \<mapsto> SNum 30])) = [(0, 30000, OpenAlarmCb 30)] \<and>
   openAlarmPending
     (run bytesText [DataPoint report_open, Fire 0 env_ok]
        (init example_caps [''open_alarm_time'' \<mapsto> SNum 30])) = [] \<and>
   getCapabilityValue ''alarm_contact''
     (run bytesText [DataPoint report_open, Fire 0 env_ok]
        (init example_caps [''open_alarm_time'' \<mapsto> SNum 30])) = JBool True"
  by (simp add: report_open_def getDataValue_def index0_def init_def example_caps_def
      handleDataPoint_def dataPoints_garageDoorContact_def homey_clearTimeout_def
      homey_setTimeout_def setCapabilityValue_def hasCapability_def getCapabilityValue_def
      startOpenAlarmTimer_def orDefault_def openAlarmPending_def fire_def dropTimer_def
      openAlarmCallback_def triggerFlowCard_def env_ok_def Let_def)

text \<open>
  C6 (amended): right after a contact update the open-time alarm timer is pending iff
  that update reported the door open and the configured \<open>open_alarm_time\<close> is strictly
  positive: an update to open (re)starts the timer for the configured time, an update to
  closed stops it, and with a time of 0 or less, or none that parses, none is started.
  Trigger requests, reports on other data points and the firing of other timers leave it
  as it is; when it fires itself none is pending any more, until the next update to open.
  With a time of 0 or less, or unset, no state the driver reaches has one pending.
\<close>

theorem open_alarm_timer:
  "wf_timers s \<Longrightarrow>
   (\<forall>d n. dp d = 3 \<and> truthy (getDataValue d) \<and>
        parseInt (settings s ''open_alarm_time'') = Some n \<and> 0 < n \<longrightarrow>
      openAlarmPending (handleDataPoint dec d s) = [(nextHandle s, n * 1000, OpenAlarmCb n)]) \<and>
   (\<forall>d. dp d = 3 \<and>
        (\<not> truthy (getDataValue d) \<or> parseInt (settings s ''open_alarm_time'') = None \<or>
         (\<exists>n. parseInt (settings s ''open_alarm_time'') = Some n \<and> n \<le> 0)) \<longrightarrow>
      openAlarmPending (handleDataPoint dec d s) = []) \<and>
   (\<forall>d. dp d \<noteq> 3 \<longrightarrow> openAlarmPending (handleDataPoint dec d s) = openAlarmPending s) \<and>
   openAlarmPending (triggerDoorPulse e s) = openAlarmPending s \<and>
   (\<forall>h t. find (\<lambda>t. fst t = h) (pending s) = Some t \<and> \<not> isOpenAlarm (snd (snd t)) \<longrightarrow>
      openAlarmPending (fire h e s) = openAlarmPending s) \<and>
   (\<forall>h t. find (\<lambda>t. fst t = h) (pending s) = Some t \<and> isOpenAlarm (snd (snd t)) \<longrightarrow>
      openAlarmPending (fire h e s) = []) \<and>
   (\<forall>cs st evs.
      parseInt (st ''open_alarm_time'') = None \<or>
      (\<exists>n. parseInt (st ''open_alarm_time'') = Some n \<and> n \<le> 0) \<longrightarrow>
      openAlarmPending (run dec evs (init cs st)) = [])"
proof -
  assume wf: "wf_timers s"
  have off: "openAlarmPending (run dec evs (init cs st)) = []"
    if "parseInt (st ''open_alarm_time'') = None \<or>
        (\<exists>n. parseInt (st ''open_alarm_time'') = Some n \<and> n \<le> 0)" for cs st evs
  proof (rule openAlarm_disabled_run)
    show "wf_timers (init cs st)" by (rule wf_init)
    show "orDefault (parseInt (settings (init cs st) ''open_alarm_time'')) 0 \<le> 0"
      using that by (auto simp: init_def orDefault_def)
    show "openAlarmPending (init cs st) = []" by (simp add: init_def openAlarmPending_def)
  qed
  have upd: "openAlarmPending (handleDataPoint dec d s) =
     (if truthy (getDataValue d) \<and> 0 < orDefault (parseInt (settings s ''open_alarm_time'')) 0
      then [(nextHandle s, orDefault (parseInt (settings s ''open_alarm_time'')) 0 * 1000,
             OpenAlarmCb (orDefault (parseInt (settings s ''open_alarm_time'')) 0))]
      else [])" if "dp d = 3" for d
    using that wf by (rule openAlarmPending_contact_update)
  show ?thesis
    using off openAlarmPending_fire [OF wf]
    by (auto simp: upd orDefault_def openAlarmPending_other_report
        openAlarmPending_triggerDoorPulse [OF wf] split: option.splits if_splits)
qed


theorem open_alarm_timer_witness:
  "wf_timers (init example_caps [''open_alarm_time'' \<mapsto> SNum 30]) \<and>
   dp report_open = 3 \<and> truthy (getDataValue report_open) \<and>
   parseInt (settings (init example_caps [''open_alarm_time'' \<mapsto> SNum 30]) ''open_alarm_time'')
     = Some 30 \<and>
   openAlarmPending
     (handleDataPoint bytesText report_open
        (init example_caps [''open_alarm_time'' \<mapsto> SNum 30])) = [(0, 30000, OpenAlarmCb 30)] \<and>
   dp report_closed = 3 \<and> \<not> truthy (getDataValue report_closed) \<and>
   openAlarmPending
     (handleDataPoint bytesText report_closed
        (init example_caps [''open_alarm_time'' \<mapsto> SNum 30])) = [] \<and>
   parseInt (Map.empty ''open_alarm_time'') = None \<and>
   openAlarmPending (run bytesText [DataPoint report_open] (init example_caps Map.empty)) = []"
proof -
  let ?s = "init example_caps [''open_alarm_time'' \<mapsto> SNum 30]"
  have a: "wf_timers ?s" by (rule wf_init)
  have b: "dp report_open = 3" "truthy (getDataValue report_open)"
    by (simp_all add: report_open_def getDataValue_def index0_def)
  have c: "parseInt (settings ?s ''open_alarm_time'') = Some 30"
    by (simp add: init_def)
  have n: "nextHandle ?s = 0" by (simp add: init_def)
  have b': "dp report_closed = 3" "\<not> truthy (getDataValue report_closed)"
    by (simp_all add: report_closed_def getDataValue_def index0_def)
  have u: "parseInt (Map.empty ''open_alarm_time'') = None" by simp
  note t = open_alarm_timer [OF a, of bytesText env_ok]
  from t b c have "openAlarmPending (handleDataPoint bytesText report_open ?s) =
      [(nextHandle ?s, 30 * 1000, OpenAlarmCb 30)]"
    by simp
  then have d: "openAlarmPending (handleDataPoint bytesText report_open ?s) =
      [(0, 30000, OpenAlarmCb 30)]"
    by (simp add: n)
  from t b' have e: "openAlarmPending (handleDataPoint bytesText report_closed ?s) = []"
    by blast
  from t have g: "parseInt (st ''open_alarm_time'') = None \<Longrightarrow>
      openAlarmPending (run bytesText evs (init cs st)) = []" for cs st evs
    by blast
  have f: "openAlarmPending (run bytesText [DataPoint report_open]
      (init example_caps Map.empty)) = []"
    using u by (rule g)
  from a b c d b' e u f show ?thesis by blast
qed

section \<open>One movement cycle at a time\<close>

lemma singleton_by_handle:
  "distinct (map fst xs) \<Longrightarrow> \<forall>t \<in> set xs. fst t = h \<Longrightarrow> length xs \<le> 1"
  by (cases xs; cases "tl xs") auto

text \<open>In every state that keeps the timer discipline at most one timer of each kind is
  pending. Handlers that each run as one step keep the discipline (\<open>wf_reachable\<close>);
  trigger requests that overlap do not.\<close>

lemma at_most_one_pending:
  assumes wf: "wf_timers s"
  shows "length (countdownPending s) \<le> 1" and "length (safetyPending s) \<le> 1"
    and "length (openAlarmPending s) \<le> 1"
proof -
  have d: "distinct (map fst (pending s))" using wf by (simp add: wf_timers_def)
  show "length (countdownPending s) \<le> 1"
  proof (cases "delayedTriggerTimer s")
    case None
    then have "countdownPending s = []"
      using wf by (auto simp: countdownPending_def wf_timers_def filter_empty_conv)
    then show ?thesis by simp
  next
    case (Some h)
    show ?thesis
    proof (rule singleton_by_handle [where h = h])
      show "distinct (map fst (countdownPending s))"
        using d by (simp add: countdownPending_def distinct_map_filter)
      show "\<forall>t \<in> set (countdownPending s). fst t = h"
        using wf Some by (auto simp: countdownPending_def wf_timers_def)
    qed
  qed
  show "length (safetyPending s) \<le> 1"
  proof (cases "safetyTimer s")
    case None
    then have "safetyPending s = []"
      using wf by (auto simp: safetyPending_def wf_timers_def filter_empty_conv)
    then show ?thesis by simp
  next
    case (Some h)
    show ?thesis
    proof (rule singleton_by_handle [where h = h])
      show "distinct (map fst (safetyPending s))"
        using d by (simp add: safetyPending_def distinct_map_filter)
      show "\<forall>t \<in> set (safetyPending s). fst t = h"
        using wf Some by (auto simp: safetyPending_def wf_timers_def)
    qed
  qed
  show "length (openAlarmPending s) \<le> 1"
  proof (cases "openAlarmTimer s")
    case None
    then have "openAlarmPending s = []"
      using wf by (auto simp: openAlarmPending_def wf_timers_def filter_empty_conv)
    then show ?thesis by simp
  next
    case (Some h)
    show ?thesis
    proof (rule singleton_by_handle [where h = h])
      show "distinct (map fst (openAlarmPending s))"
        using d by (simp add: openAlarmPending_def distinct_map_filter)
      show "\<forall>t \<in> set (openAlarmPending s). fst t = h"
        using wf Some by (auto simp: openAlarmPending_def wf_timers_def)
    qed
  qed
qed

text \<open>
  C5: at most one countdown timer and at most one safety timer are pending, and the two
  are never pending together. This fails in the driver with the retry, even with every
  awaited host call answered at once: with a countdown of 5 seconds, a trigger request
  starts the countdown; it fires and the write fails, so the pulse sender waits 500 ms for
  its retry; a second trigger request in that time cancels nothing of the waiting sender
  and starts a new countdown; the retry then succeeds and starts the safety timer. The
  countdown timer 2 and the safety timer 3 are pending together, and when the countdown
  fires the relay is pulsed again.
\<close>

theorem overlapping_cycles:
  "countdownPending
     (run bytesText [Trigger env_ok, Fire 0 env_error, Trigger env_ok, Fire 1 env_ok]
        (init example_caps [''count_down'' \<mapsto> SNum 5])) = [(2, 5000, SendPulseCb)] \<and>
   safetyPending
     (run bytesText [Trigger env_ok, Fire 0 env_error, Trigger env_ok, Fire 1 env_ok]
        (init example_caps [''count_down'' \<mapsto> SNum 5])) = [(3, 20000, SafetyCb True)] \<and>
   pulseWrites
     (run bytesText [Trigger env_ok, Fire 0 env_error, Trigger env_ok, Fire 1 env_ok, Fire 2 env_ok]
        (init example_caps [''count_down'' \<mapsto> SNum 5])) = 3"
  by code_simp

section \<open>Handlers that overlap\<close>

text \<open>When the host answers each awaited call before anything else happens, the segments
  of a handler make up the one-step handler: a trigger request and a firing timer each
  wait at most twice (for the status write and for the write of the pulse), and after
  two answers the device is the one the one-step handler gives, with no handler left
  waiting.\<close>

lemma answer_single:
  "waiting m = [(i, k)] \<Longrightarrow> answer e m = continue k e (m\<lparr>waiting := []\<rparr>)"
  "waiting m = [] \<Longrightarrow> answer e m = m"
  by (simp_all add: answer_def resume_def)

lemma answer_basic_single:
  "waiting m = [(i, k)] \<Longrightarrow> answer_basic e m = continue_basic k e (m\<lparr>waiting := []\<rparr>)"
  "waiting m = [] \<Longrightarrow> answer_basic e m = m"
  by (simp_all add: answer_basic_def resume_basic_def)

lemma sendPulse_one_step:
  assumes "waiting m = []"
  shows "dev (answer e (answer e (sendPulse_begin m))) = sendPulse e (dev m)"
    and "waiting (answer e (answer e (sendPulse_begin m))) = []"
  using assms
  by (auto simp: sendPulse_begin_def sendPulse_write_def sendPulse_written_def suspend_def
      answer_single sendPulse_def Let_def hasCapability_def setCapabilityValue_def
      getCapabilityValue_def split: write_outcome.splits)

lemma sendPulse_basic_one_step:
  assumes "waiting m = []"
  shows "dev (answer_basic e (answer_basic e (sendPulse_begin m))) = sendPulse_basic e (dev m)"
    and "waiting (answer_basic e (answer_basic e (sendPulse_begin m))) = []"
  using assms
  by (auto simp: sendPulse_begin_def sendPulse_write_def suspend_def answer_basic_single
      sendPulse_basic_def Let_def hasCapability_def setCapabilityValue_def
      getCapabilityValue_def)

lemma request_one_step:
  assumes "waiting m = []"
  shows "dev (answer e (answer e (triggerDoorPulse_begin m))) = triggerDoorPulse e (dev m)"
    and "waiting (answer e (answer e (triggerDoorPulse_begin m))) = []"
proof -
  let ?s2 = "homey_clearTimeout (safetyTimer (dev m))
               (homey_clearTimeout (delayedTriggerTimer (dev m)) (dev m))"
  have w: "waiting (m\<lparr>dev := ?s2\<rparr>) = []" using assms by simp
  show "dev (answer e (answer e (triggerDoorPulse_begin m))) = triggerDoorPulse e (dev m)"
    using assms sendPulse_one_step(1) [OF w, of e]
    by (auto simp: triggerDoorPulse_begin_def triggerDoorPulse_def Let_def suspend_def
        answer_single triggerDoorPulse_schedule_def split: prod.splits)
  show "waiting (answer e (answer e (triggerDoorPulse_begin m))) = []"
    using assms sendPulse_one_step(2) [OF w, of e]
    by (auto simp: triggerDoorPulse_begin_def Let_def suspend_def
        answer_single triggerDoorPulse_schedule_def split: prod.splits)
qed

lemma request_basic_one_step:
  assumes "waiting m = []"
  shows "dev (answer_basic e (answer_basic e (triggerDoorPulse_begin m))) =
           triggerDoorPulse_basic e (dev m)"
    and "waiting (answer_basic e (answer_basic e (triggerDoorPulse_begin m))) = []"
proof -
  let ?s2 = "homey_clearTimeout (safetyTimer (dev m))
               (homey_clearTimeout (delayedTriggerTimer (dev m)) (dev m))"
  have w: "waiting (m\<lparr>dev := ?s2\<rparr>) = []" using assms by simp
  show "dev (answer_basic e (answer_basic e (triggerDoorPulse_begin m))) =
           triggerDoorPulse_basic e (dev m)"
    using assms sendPulse_basic_one_step(1) [OF w, of e]
    by (auto simp: triggerDoorPulse_begin_def triggerDoorPulse_basic_def Let_def suspend_def
        answer_basic_single triggerDoorPulse_schedule_def split: prod.splits)
  show "waiting (answer_basic e (answer_basic e (triggerDoorPulse_begin m))) = []"
    using assms sendPulse_basic_one_step(2) [OF w, of e]
    by (auto simp: triggerDoorPulse_begin_def Let_def suspend_def
        answer_basic_single triggerDoorPulse_schedule_def split: prod.splits)
qed

lemma sendPulse_retry_one_step:
  assumes "waiting m = []"
  shows "dev (answer e (answer e (sendPulse_retry_write x m))) = sendPulse_retry x e (dev m)"
    and "waiting (answer e (answer e (sendPulse_retry_write x m))) = []"
  using assms
  by (auto simp: sendPulse_retry_write_def sendPulse_retry_written_def sendPulse_recover_def
      suspend_def answer_single sendPulse_retry_def Let_def hasCapability_def
      setCapabilityValue_def split: write_outcome.splits)

lemma timer_one_step:
  assumes "waiting m = []"
  shows "dev (answer e (answer e (timerFires h e m))) = fire h e (dev m)"
    and "waiting (answer e (answer e (timerFires h e m))) = []"
proof -
  have w: "waiting (m\<lparr>dev := dropTimer h (dev m)\<rparr>) = []" using assms by simp
  show "dev (answer e (answer e (timerFires h e m))) = fire h e (dev m)"
    using assms sendPulse_one_step(1) [OF w, of e] sendPulse_retry_one_step(1) [OF w, of e]
    by (auto simp: timerFires_def fire_def answer_single split: option.splits callback.splits)
  show "waiting (answer e (answer e (timerFires h e m))) = []"
    using assms sendPulse_one_step(2) [OF w, of e] sendPulse_retry_one_step(2) [OF w, of e]
    by (auto simp: timerFires_def answer_single split: option.splits callback.splits)
qed

lemma timer_basic_one_step:
  assumes "waiting m = []"
  shows "dev (answer_basic e (answer_basic e (timerFires_basic h e m))) = fire_basic h e (dev m)"
    and "waiting (answer_basic e (answer_basic e (timerFires_basic h e m))) = []"
proof -
  have w: "waiting (m\<lparr>dev := dropTimer h (dev m)\<rparr>) = []" using assms by simp
  show "dev (answer_basic e (answer_basic e (timerFires_basic h e m))) = fire_basic h e (dev m)"
    using assms sendPulse_basic_one_step(1) [OF w, of e]
    by (auto simp: timerFires_basic_def fire_basic_def answer_basic_single
        split: option.splits callback.splits)
  show "waiting (answer_basic e (answer_basic e (timerFires_basic h e m))) = []"
    using assms sendPulse_basic_one_step(2) [OF w, of e]
    by (auto simp: timerFires_basic_def answer_basic_single split: option.splits callback.splits)
qed

text \<open>
  Two trigger requests that overlap. With a countdown, \<open>triggerDoorPulse\<close> cancels the
  timers, then awaits the status write \<open>'2'\<close>, then schedules the countdown and stores
  its handle in \<open>delayedTriggerTimer\<close>. A second request that arrives while the first
  waits finds no timer to cancel; both go on, both schedule a countdown, and the field
  holds the handle of the second. The timer of the first is pending and no field names
  it: the timer discipline is lost, in both drivers.
\<close>

lemma overlapping_requests_break_discipline:
  "pending (dev (reacts bytesText [Request, Request, Answer 0 env_ok, Answer 1 env_ok]
      example_countdown)) = [(0, 5000, SendPulseCb), (1, 5000, SendPulseCb)] \<and>
   delayedTriggerTimer (dev (reacts bytesText
      [Request, Request, Answer 0 env_ok, Answer 1 env_ok] example_countdown)) = Some 1 \<and>
   \<not> wf_timers (dev (reacts bytesText [Request, Request, Answer 0 env_ok, Answer 1 env_ok]
      example_countdown)) \<and>
   pending (dev (reacts_basic bytesText [Request, Request, Answer 0 env_ok, Answer 1 env_ok]
      example_countdown)) = [(0, 5000, SendPulseCb), (1, 5000, SendPulseCb)] \<and>
   delayedTriggerTimer (dev (reacts_basic bytesText
      [Request, Request, Answer 0 env_ok, Answer 1 env_ok] example_countdown)) = Some 1"
proof -
  let ?s = "dev (reacts bytesText [Request, Request, Answer 0 env_ok, Answer 1 env_ok]
      example_countdown)"
  have p: "pending ?s = [(0, 5000, SendPulseCb), (1, 5000, SendPulseCb)]" by code_simp
  have d: "delayedTriggerTimer ?s = Some 1" by code_simp
  have b: "pending (dev (reacts_basic bytesText
      [Request, Request, Answer 0 env_ok, Answer 1 env_ok] example_countdown)) =
      [(0, 5000, SendPulseCb), (1, 5000, SendPulseCb)]"
    "delayedTriggerTimer (dev (reacts_basic bytesText
      [Request, Request, Answer 0 env_ok, Answer 1 env_ok] example_countdown)) = Some 1"
    by code_simp+
  have n: "\<not> wf_timers s"
    if "pending s = [(0, 5000, SendPulseCb), (1, 5000, SendPulseCb)]"
      and "delayedTriggerTimer s = Some 1" for s
    using that by (simp add: wf_timers_def)
  from p d b n [OF p d] show ?thesis by blast
qed

text \<open>
  C2: for every position-contact sensor update, received in any control state,
  \<open>handleDataPoint\<close> cancels the pending safety timer and the pending countdown timer,
  stores the new value as the contact state and sets the status from it. The handler
  cancels the countdown timer that \<open>delayedTriggerTimer\<close> names. After two trigger
  requests that overlapped (countdown 5 s, the second request arriving before the host
  has answered the status write of the first) the countdown timers 0 and 1 are pending and
  the field names timer 1. A report that the door is open then cancels timer 1 and leaves
  timer 0 pending, with the contact stored and the status \<open>'open'\<close>; when timer 0 fires,
  the pulse is written although the sensor has reported since, and the safety timer
  expects the door closed. Both drivers do the same.
\<close>

theorem contact_update_leaves_countdown:
  "countdownPending (dev (reacts bytesText
      [Request, Request, Answer 0 env_ok, Answer 1 env_ok] example_countdown)) =
     [(0, 5000, SendPulseCb), (1, 5000, SendPulseCb)] \<and>
   dp report_open = 3 \<and>
   countdownPending (dev (reacts bytesText
      [Request, Request, Answer 0 env_ok, Answer 1 env_ok, Report report_open]
      example_countdown)) = [(0, 5000, SendPulseCb)] \<and>
   getCapabilityValue ''alarm_contact'' (dev (reacts bytesText
      [Request, Request, Answer 0 env_ok, Answer 1 env_ok, Report report_open]
      example_countdown)) = JBool True \<and>
   getCapabilityValue ''garage_Door_State_Capability'' (dev (reacts bytesText
      [Request, Request, Answer 0 env_ok, Answer 1 env_ok, Report report_open]
      example_countdown)) = JStr ''open'' \<and>
   effects (dev (reacts bytesText
      [Request, Request, Answer 0 env_ok, Answer 1 env_ok, Report report_open,
       Timer 0 env_ok, Answer 2 env_ok, Answer 3 env_ok] example_countdown)) =
     [WriteBool 1 True] \<and>
   pending (dev (reacts bytesText
      [Request, Request, Answer 0 env_ok, Answer 1 env_ok, Report report_open,
       Timer 0 env_ok, Answer 2 env_ok, Answer 3 env_ok] example_countdown)) =
     [(2, 20000, SafetyCb False)] \<and>
   countdownPending (dev (reacts_basic bytesText
      [Request, Request, Answer 0 env_ok, Answer 1 env_ok, Report report_open]
      example_countdown)) = [(0, 5000, SendPulseCb)] \<and>
   effects (dev (reacts_basic bytesText
      [Request, Request, Answer 0 env_ok, Answer 1 env_ok, Report report_open,
       Timer 0 env_ok, Answer 2 env_ok, Answer 3 env_ok] example_countdown)) =
     [WriteBool 1 True]"
  by code_simp

text \<open>
  C4: \<open>triggerDoorPulse\<close> always first cancels any pending countdown and safety timers,
  and with a countdown it schedules the countdown timer, whose firing sends the pulse.
  It cancels the countdown timer that \<open>delayedTriggerTimer\<close> names, and it assigns that
  field only after the awaited status write. After two trigger requests that overlapped
  (countdown 5 s) the countdown timers 0 and 1 are pending and the field names timer 1. A
  third request, with no other handler waiting, cancels timer 1 only: timer 0 is still
  pending when it has cancelled, and with the countdown it schedules, timer 2, two
  countdown timers are pending. Both fire and the pulse is written twice, the second
  time while the safety timer of the first runs. Both drivers do the same.
\<close>

theorem trigger_request_leaves_countdown:
  "waiting (reacts bytesText
      [Request, Request, Answer 0 env_ok, Answer 1 env_ok] example_countdown) = [] \<and>
   countdownPending (dev (reacts bytesText
      [Request, Request, Answer 0 env_ok, Answer 1 env_ok] example_countdown)) =
     [(0, 5000, SendPulseCb), (1, 5000, SendPulseCb)] \<and>
   countdownPending (dev (reacts bytesText
      [Request, Request, Answer 0 env_ok, Answer 1 env_ok, Request] example_countdown)) =
     [(0, 5000, SendPulseCb)] \<and>
   countdownPending (dev (reacts bytesText
      [Request, Request, Answer 0 env_ok, Answer 1 env_ok, Request, Answer 2 env_ok]
      example_countdown)) = [(0, 5000, SendPulseCb), (2, 5000, SendPulseCb)] \<and>
   pending (dev (reacts bytesText
      [Request, Request, Answer 0 env_ok, Answer 1 env_ok, Request, Answer 2 env_ok,
       Timer 0 env_ok, Answer 3 env_ok, Answer 4 env_ok] example_countdown)) =
     [(2, 5000, SendPulseCb), (3, 20000, SafetyCb True)] \<and>
   pulseWrites (dev (reacts bytesText
      [Request, Request, Answer 0 env_ok, Answer 1 env_ok, Request, Answer 2 env_ok,
       Timer 0 env_ok, Answer 3 env_ok, Answer 4 env_ok,
       Timer 2 env_ok, Answer 5 env_ok, Answer 6 env_ok] example_countdown)) = 2 \<and>
   countdownPending (dev (reacts_basic bytesText
      [Request, Request, Answer 0 env_ok, Answer 1 env_ok, Request] example_countdown)) =
     [(0, 5000, SendPulseCb)] \<and>
   countdownPending (dev (reacts_basic bytesText
      [Request, Request, Answer 0 env_ok, Answer 1 env_ok, Request, Answer 2 env_ok]
      example_countdown)) = [(0, 5000, SendPulseCb), (2, 5000, SendPulseCb)] \<and>
   pulseWrites (dev (reacts_basic bytesText
      [Request, Request, Answer 0 env_ok, Answer 1 env_ok, Request, Answer 2 env_ok,
       Timer 0 env_ok, Answer 3 env_ok, Answer 4 env_ok,
       Timer 2 env_ok, Answer 5 env_ok, Answer 6 env_ok] example_countdown)) = 2"
  by code_simp

end
